theory Spec2Isabelle
  imports Main "HOL-Library.Log_Nat"
begin

section \<open>Numbers: decimals, binary floating point and the \<open>'.2f'\<close> format\<close>

text \<open>
  The monetary columns are \<open>DecimalField(max_digits=100, decimal_places=2)\<close>: a value
  read from storage is a decimal with two places, modelled by its number of cents. The
  field defaults (\<open>50.00\<close>, \<open>0.00\<close>) are Python float literals, and
  \<open>math.fsum\<close> works on floats, so floats are modelled too: a finite double is the
  rational it denotes. With at most 100 digits no value leaves the range of a double, so
  rounding to a double is rounding to 53 significant bits, ties to even.
\<close>

definition round_half_even :: "rat \<Rightarrow> int" where
  "round_half_even x =
     (let f = \<lfloor>x\<rfloor>; d = x - of_int f
      in if d < 1 / 2 then f else if 1 / 2 < d then f + 1 else if even f then f else f + 1)"

text \<open>\<open>ilog2 x\<close> is the binary exponent of a positive rational: \<open>2 ^ ilog2 x \<le> x < 2 ^ (ilog2 x + 1)\<close>.\<close>

definition ilog2 :: "rat \<Rightarrow> int" where
  "ilog2 x =
     (let (p, q) = quotient_of x; k = bitlen p - bitlen q
      in if 2 powi k \<le> x then k else k - 1)"

definition round_double :: "rat \<Rightarrow> rat" where
  "round_double x =
     (if x = 0 then 0
      else let e = ilog2 \<bar>x\<bar> - 52
           in sgn x * of_int (round_half_even (\<bar>x\<bar> / 2 powi e)) * 2 powi e)"

datatype number = Dec int | Flt rat

text \<open>The value a number denotes, and \<open>float(x)\<close> as \<open>math.fsum\<close> applies it to each item.\<close>

fun value_of :: "number \<Rightarrow> rat" where
  "value_of (Dec c) = of_int c / 100"
| "value_of (Flt x) = x"

fun to_float :: "number \<Rightarrow> rat" where
  "to_float (Dec c) = round_double (of_int c / 100)"
| "to_float (Flt x) = x"

text \<open>\<open>math.fsum\<close> returns the exact sum of its (float) items, rounded once.\<close>

definition fsum :: "rat list \<Rightarrow> rat" where
  "fsum xs = round_double (sum_list xs)"

text \<open>
  \<open>format(x, '.2f')\<close> prints the double \<open>x\<close> correctly rounded to two places (ties
  of the exact binary value to even). The text is determined by the number of cents it
  shows; \<open>show_2f\<close> spells it out.
\<close>

definition format_2f :: "rat \<Rightarrow> int" where
  "format_2f x = round_half_even (100 * x)"

definition digit :: "nat \<Rightarrow> char" where
  "digit n = ''0123456789'' ! (n mod 10)"

function show_nat :: "nat \<Rightarrow> string" where
  "show_nat n = (if n < 10 then [digit n] else show_nat (n div 10) @ [digit n])"
  by pat_completeness auto
termination
  by (relation "measure id") auto

definition show_2f :: "int \<Rightarrow> string" where
  "show_2f c =
     (let n = nat \<bar>c\<bar>
      in (if c < 0 then ''-'' else []) @ show_nat (n div 100) @ ''.'' @ [digit (n div 10), digit n])"

text \<open>
  The value of an order's \<open>total\<close> attribute. \<open>update_total\<close> assigns the text that
  \<open>format\<close> returns, and Django converts an attribute only when it writes the row, so the
  attribute of an instance is a number or such a text: \<open>Str2f c\<close> is the text
  \<open>show_2f c\<close>.
\<close>

datatype total_val = Num number | Str2f int

text \<open>
  What the row stores (\<open>DecimalField.get_db_prep_save\<close>): the decimal itself, a float
  or a text converted to a decimal and quantized to two places (half even).
\<close>

fun number_to_db :: "number \<Rightarrow> int" where
  "number_to_db (Dec c) = c"
| "number_to_db (Flt x) = round_half_even (100 * x)"

fun total_to_db :: "total_val \<Rightarrow> int" where
  "total_to_db (Num n) = number_to_db n"
| "total_to_db (Str2f c) = c"

section \<open>Carts, orders and the stored tables\<close>

text \<open>
  Modelled from the spec: \<open>carts.models.Cart\<close> is not part of the sources; the spec
  gives the contract consumed here, \<open>Cart.total\<close> (decimal) and \<open>Cart.is_digital\<close>
  (bool). Billing profiles and addresses are only tested for presence and compared, so a
  reference to one is its key. An order refers to its cart by the cart's key. The two
  time stamps of an order (\<open>timestamp\<close>, \<open>updated\<close>) are read by none of the
  operations below and are left out.
\<close>

record cart =
  cart_id :: nat
  cart_total :: number
  is_digital :: bool

record order =
  pk :: "nat option"
  order_id :: string
  billing_profile :: "nat option"
  shipping_address :: "nat option"
  billing_address :: "nat option"
  cart :: nat
  status :: string
  shipping_total :: number
  total :: total_val
  active :: bool

record db =
  carts :: "cart list"
  orders :: "order list"

datatype error = TypeError | DoesNotExist

text \<open>
  Modelled from the spec: \<open>kart.utils.unique_order_id_generator\<close> is not part of the
  sources (the spec: an identifier unique across all orders, format unspecified). It
  draws a random string and queries the orders, so it is a parameter of every operation
  that saves.
\<close>

type_synonym id_generator = "db \<Rightarrow> order \<Rightarrow> string"

text \<open>\<open>self.cart\<close>: the cart row the order's foreign key names.\<close>

definition get_cart :: "db \<Rightarrow> order \<Rightarrow> cart option" where
  "get_cart d self = find (\<lambda>c. cart_id c = cart self) (carts d)"

section \<open>Saving an order\<close>

text \<open>
  \<open>order_id_pre_save_receiver\<close>: the queryset is
  \<open>filter(cart=instance.cart).exclude(billing_profile=instance.billing_profile)\<close>, and
  \<open>qs.update(active=False)\<close> writes the rows directly (no signal, no instance changed).
  Building the queryset reads \<open>instance.cart\<close>, which raises \<open>Cart.DoesNotExist\<close>
  when the cart's row is missing; nothing is written then.
\<close>

definition stale :: "order \<Rightarrow> order \<Rightarrow> bool" where
  "stale instance r \<longleftrightarrow> cart r = cart instance \<and> billing_profile r \<noteq> billing_profile instance"

definition order_id_pre_save_receiver :: "id_generator \<Rightarrow> db \<Rightarrow> order \<Rightarrow> error + order \<times> db" where
  "order_id_pre_save_receiver gen d instance =
     (let instance' = (if order_id instance = [] then instance\<lparr>order_id := gen d instance\<rparr>
                       else instance)
      in case get_cart d instance' of
           None \<Rightarrow> Inl DoesNotExist
         | Some c \<Rightarrow>
             (let qs = filter (stale instance') (orders d)
              in Inr (instance',
                      if qs \<noteq> []
                      then d\<lparr>orders := map (\<lambda>r. if stale instance' r then r\<lparr>active := False\<rparr> else r) (orders d)\<rparr>
                      else d)))"

text \<open>
  For the proofs: the order and the tables the receiver returns when the order's cart
  exists.
\<close>

definition pre_save_writes :: "id_generator \<Rightarrow> db \<Rightarrow> order \<Rightarrow> order \<times> db" where
  "pre_save_writes gen d instance =
     (let instance' = (if order_id instance = [] then instance\<lparr>order_id := gen d instance\<rparr>
                       else instance);
          qs = filter (stale instance') (orders d)
      in (instance',
          if qs \<noteq> [] then d\<lparr>orders := map (\<lambda>r. if stale instance' r then r\<lparr>active := False\<rparr> else r) (orders d)\<rparr>
          else d))"

text \<open>The row an instance is written as: its attributes, the two amounts as decimals.\<close>

definition to_row :: "order \<Rightarrow> order" where
  "to_row self = self\<lparr>shipping_total := Dec (number_to_db (shipping_total self)),
                       total := Num (Dec (total_to_db (total self)))\<rparr>"

definition row_exists :: "db \<Rightarrow> order \<Rightarrow> bool" where
  "row_exists d self \<longleftrightarrow> (case pk self of None \<Rightarrow> False
                          | Some i \<Rightarrow> filter (\<lambda>r. pk r = Some i) (orders d) \<noteq> [])"

definition next_pk :: "order list \<Rightarrow> nat" where
  "next_pk rs = Suc (fold max (map (\<lambda>r. case pk r of None \<Rightarrow> 0 | Some i \<Rightarrow> i) rs) 0)"

text \<open>
  \<open>Model.save\<close> between the two signals: an instance with a key whose row exists is an
  UPDATE of that row; otherwise the row is INSERTed, under a new key when the instance
  has none. The flag is the \<open>created\<close> that \<open>post_save\<close> receives.
\<close>

definition write_row :: "db \<Rightarrow> order \<Rightarrow> order \<times> db \<times> bool" where
  "write_row d self =
     (case pk self of
        Some i \<Rightarrow>
          if row_exists d self
          then (self, d\<lparr>orders := map (\<lambda>r. if pk r = Some i then to_row self else r) (orders d)\<rparr>, False)
          else (self, d\<lparr>orders := orders d @ [to_row self]\<rparr>, True)
      | None \<Rightarrow>
          (let self' = self\<lparr>pk := Some (next_pk (orders d))\<rparr>
           in (self', d\<lparr>orders := orders d @ [to_row self']\<rparr>, True)))"

text \<open>
  The three pieces below call each other as the framework dispatches them:
  \<open>Model.save\<close> sends \<open>pre_save\<close>, writes the row and sends \<open>post_save\<close>;
  \<open>order_post_save_receiver\<close> calls \<open>update_total\<close> for a created order, and
  \<open>update_total\<close> saves again. The recursion ends because the second save finds the
  row the first one inserted; the lemmas before the definition are what the
  termination proof needs.
\<close>

lemma row_exists_iff:
  "row_exists d self \<longleftrightarrow> pk self \<noteq> None \<and> pk self \<in> pk ` set (orders d)"
  by (force simp: row_exists_def filter_empty_conv split: option.splits)

lemma pre_save_pk: "pre_save_writes gen d self = (self1, d1) \<Longrightarrow> pk self1 = pk self"
  by (auto simp: pre_save_writes_def Let_def split: if_splits)

lemma pre_save_pks:
  "pre_save_writes gen d self = (self1, d1) \<Longrightarrow> map pk (orders d1) = map pk (orders d)"
  by (auto simp: pre_save_writes_def Let_def split: if_splits)

lemma row_exists_pks:
  "row_exists d self \<longleftrightarrow> pk self \<noteq> None \<and> pk self \<in> set (map pk (orders d))"
  by (simp add: row_exists_iff)

lemma pre_save_row_exists:
  "pre_save_writes gen d self = (self1, d1) \<Longrightarrow> row_exists d1 self1 = row_exists d self"
  unfolding row_exists_pks by (simp only: pre_save_pk pre_save_pks)

lemma write_row_created:
  "write_row d self = (self2, d2, created) \<Longrightarrow> created = (\<not> row_exists d self)"
  by (auto simp: write_row_def Let_def row_exists_def split: option.splits if_splits)

lemma to_row_pk [simp]: "pk (to_row self) = pk self"
  by (simp add: to_row_def)

lemma write_row_exists:
  assumes "write_row d self = (self2, d2, created)"
  shows "row_exists d2 self2"
proof (cases "pk self")
  case None
  with assms show ?thesis
    by (auto simp: write_row_def Let_def row_exists_iff image_iff)
next
  case (Some i)
  show ?thesis
  proof (cases "row_exists d self")
    case True
    then obtain r where r: "r \<in> set (orders d)" "pk r = Some i"
      using Some by (auto simp: row_exists_iff)
    from assms Some True have eq: "self2 = self"
      "orders d2 = map (\<lambda>r. if pk r = Some i then to_row self else r) (orders d)"
      by (auto simp: write_row_def)
    have "(\<lambda>r. if pk r = Some i then to_row self else r) r \<in> (\<lambda>r. if pk r = Some i then to_row self else r) ` set (orders d)"
      using r(1) by (rule imageI)
    then have "(if pk r = Some i then to_row self else r) \<in> set (orders d2)"
      unfolding eq by (simp only: set_map)
    then have "to_row self \<in> set (orders d2)" using r(2) by simp
    then have "pk (to_row self) \<in> pk ` set (orders d2)" by (rule imageI)
    then show ?thesis using Some eq(1) by (simp add: row_exists_iff)
  next
    case False
    with assms Some show ?thesis
      by (auto simp: write_row_def Let_def row_exists_iff image_iff)
  qed
qed

lemma pre_save_Inr:
  "order_id_pre_save_receiver gen d self = Inr (self1, d1) \<Longrightarrow>
     pre_save_writes gen d self = (self1, d1) \<and> get_cart d self \<noteq> None"
  by (auto simp: order_id_pre_save_receiver_def pre_save_writes_def Let_def get_cart_def
      split: option.splits)

lemma pre_save_eq:
  "order_id_pre_save_receiver gen d self =
     (if get_cart d self = None then Inl DoesNotExist else Inr (pre_save_writes gen d self))"
  by (auto simp: order_id_pre_save_receiver_def pre_save_writes_def Let_def get_cart_def
      split: option.splits)

function save :: "id_generator \<Rightarrow> db \<Rightarrow> order \<Rightarrow> error + order \<times> db"
  and order_post_save_receiver :: "id_generator \<Rightarrow> db \<Rightarrow> order \<Rightarrow> bool \<Rightarrow> error + order \<times> db"
  and update_total :: "id_generator \<Rightarrow> db \<Rightarrow> order \<Rightarrow> error + total_val \<times> order \<times> db"
where
  "save gen d self =
     (case order_id_pre_save_receiver gen d self of
        Inl e \<Rightarrow> Inl e
      | Inr (self1, d1) \<Rightarrow>
          (let (self2, d2, created) = write_row d1 self1
           in order_post_save_receiver gen d2 self2 created))"
| "order_post_save_receiver gen d instance created =
     (if created
      then (case update_total gen d instance of Inl e \<Rightarrow> Inl e
            | Inr (t, instance', d') \<Rightarrow> Inr (instance', d'))
      else Inr (instance, d))"
| "update_total gen d self =
     (case get_cart d self of None \<Rightarrow> Inl DoesNotExist
      | Some c \<Rightarrow>
         (let new_total = fsum [to_float (cart_total c), to_float (shipping_total self)];
              self' = self\<lparr>total := Str2f (format_2f new_total)\<rparr>
          in (case save gen d self' of Inl e \<Rightarrow> Inl e
              | Inr (self'', d') \<Rightarrow> Inr (total self'', self'', d'))))"
  by pat_completeness auto
termination
  apply (relation "measure (\<lambda>x. case x of
            Inl (gen, d, self) \<Rightarrow> if row_exists d self then 1 else 5
          | Inr (Inl (gen, d, instance, created)) \<Rightarrow> if created then (if row_exists d instance then 3 else 7) else 0
          | Inr (Inr (gen, d, self)) \<Rightarrow> if row_exists d self then 2 else 6)")
    apply simp
  subgoal for gen d self x xa y xb xc ya xd yb
    using pre_save_Inr[of gen d self xa y] pre_save_row_exists[of gen d self xa y]
      write_row_created[of y xa xc xd yb] write_row_exists[of y xa xc xd yb]
    by auto
  subgoal by simp
  subgoal by (simp add: row_exists_def)
  done

section \<open>The order's methods and the manager\<close>

text \<open>
  \<open>check_done\<close>. The conjunction is evaluated left to right, so \<open>self.total > 0\<close>
  is only reached when the three tests before it hold; on a text it raises
  \<open>TypeError\<close> (Python 3: \<open>str\<close> and \<open>int\<close> are not ordered).
\<close>

fun positive :: "number \<Rightarrow> bool" where
  "positive (Dec c) = (0 < c)"
| "positive (Flt x) = (0 < x)"

definition check_done :: "db \<Rightarrow> order \<Rightarrow> error + bool" where
  "check_done d self =
     (case get_cart d self of None \<Rightarrow> Inl DoesNotExist
      | Some c \<Rightarrow>
         (let shipping_address_required = \<not> is_digital c;
              shipping_done = (if shipping_address_required
                               then (if shipping_address self \<noteq> None then True else False)
                               else True)
          in if billing_profile self \<noteq> None \<and> shipping_done \<and> billing_address self \<noteq> None
             then (case total self of
                     Str2f t \<Rightarrow> Inl TypeError
                   | Num n \<Rightarrow> if positive n then Inr True else Inr False)
             else Inr False))"

definition mark_paid :: "id_generator \<Rightarrow> db \<Rightarrow> order \<Rightarrow> error + string \<times> order \<times> db" where
  "mark_paid gen d self =
     (if status self \<noteq> ''paid''
      then (case check_done d self of
              Inl e \<Rightarrow> Inl e
            | Inr done \<Rightarrow>
                if done
                then (case save gen d (self\<lparr>status := ''paid''\<rparr>) of
                        Inl e \<Rightarrow> Inl e
                      | Inr (self', d') \<Rightarrow> Inr (status self', self', d'))
                else Inr (status self, self, d))
      else Inr (status self, self, d))"

text \<open>
  \<open>objects.create(billing_profile=..., cart=...)\<close>: a new instance with the field
  defaults, saved. The defaults of the two amounts are the float literals of the model.
  The new order names the cart by its key, so \<open>self.cart\<close> is the stored cart of that
  key; the statements about \<open>create\<close> take the cart passed to be that stored cart.
\<close>

definition new_order :: "nat option \<Rightarrow> cart \<Rightarrow> order" where
  "new_order bp cart_obj =
     \<lparr>pk = None, order_id = [], billing_profile = bp, shipping_address = None,
      billing_address = None, cart = cart_id cart_obj, status = ''created'',
      shipping_total = Flt 50, total = Num (Flt 0), active = True\<rparr>"

definition create :: "id_generator \<Rightarrow> db \<Rightarrow> nat option \<Rightarrow> cart \<Rightarrow> error + order \<times> db" where
  "create gen d bp cart_obj = save gen d (new_order bp cart_obj)"

definition get_or_new ::
  "id_generator \<Rightarrow> db \<Rightarrow> nat option \<Rightarrow> cart \<Rightarrow> error + order \<times> bool \<times> db" where
  "get_or_new gen d bp cart_obj =
     (let qs = filter (\<lambda>r. billing_profile r = bp \<and> cart r = cart_id cart_obj \<and> active r
                           \<and> status r = ''created'') (orders d)
      in if length qs = 1 then Inr (hd qs, False, d)
         else (case create gen d bp cart_obj of
                 Inl e \<Rightarrow> Inl e
               | Inr (obj, d') \<Rightarrow> Inr (obj, True, d')))"

section \<open>The cart's signal\<close>

text \<open>
  \<open>cart_total_post_save_receiver\<close> runs after a cart row is written: \<open>d\<close> is the
  storage with that row in place, \<open>instance\<close> the cart.
\<close>

definition cart_total_post_save_receiver ::
  "id_generator \<Rightarrow> db \<Rightarrow> cart \<Rightarrow> bool \<Rightarrow> error + db" where
  "cart_total_post_save_receiver gen d instance created =
     (if \<not> created
      then (let qs = filter (\<lambda>r. cart r = cart_id instance) (orders d)
            in if length qs = 1
               then (case update_total gen d (hd qs) of
                       Inl e \<Rightarrow> Inl e
                     | Inr (t, order_obj, d') \<Rightarrow> Inr d')
               else Inr d)
      else Inr d)"

section \<open>How a save unfolds\<close>

declare save.simps [simp del] order_post_save_receiver.simps [simp del] update_total.simps [simp del]

text \<open>
  For the proofs: one pass of \<open>Model.save\<close> up to the row written (\<open>pre_save\<close>, then
  the write), the order \<open>update_total\<close> saves, and what \<open>qs.update(active=False)\<close>
  does to one row.
\<close>

definition save_once :: "id_generator \<Rightarrow> db \<Rightarrow> order \<Rightarrow> order \<times> db \<times> bool" where
  "save_once gen d self = (let (self1, d1) = pre_save_writes gen d self in write_row d1 self1)"

definition recomputed :: "cart \<Rightarrow> order \<Rightarrow> order" where
  "recomputed c self =
     self\<lparr>total := Str2f (format_2f (fsum [to_float (cart_total c), to_float (shipping_total self)]))\<rparr>"

lemma save_once_created:
  "save_once gen d self = (self2, d2, created) \<Longrightarrow> created = (\<not> row_exists d self)"
  by (auto simp: save_once_def split: prod.splits dest: write_row_created pre_save_row_exists)

lemma save_once_exists:
  "save_once gen d self = (self2, d2, created) \<Longrightarrow> row_exists d2 self2"
  by (auto simp: save_once_def split: prod.splits dest: write_row_exists)

lemma row_exists_recomputed [simp]: "row_exists d (recomputed c self) = row_exists d self"
  by (simp add: row_exists_def recomputed_def)

lemma save_existing:
  assumes "row_exists d self" and "get_cart d self \<noteq> None"
  shows "save gen d self = (case save_once gen d self of (self2, d2, created) \<Rightarrow> Inr (self2, d2))"
proof -
  obtain self2 d2 created where s: "save_once gen d self = (self2, d2, created)"
    by (cases "save_once gen d self") auto
  then have "\<not> created" using assms(1) save_once_created by blast
  with s assms(2) show ?thesis
    by (auto simp: save.simps pre_save_eq save_once_def order_post_save_receiver.simps
        split: prod.splits)
qed

lemma update_total_unfold:
  "update_total gen d self =
     (case get_cart d self of None \<Rightarrow> Inl DoesNotExist
      | Some c \<Rightarrow> (case save gen d (recomputed c self) of Inl e \<Rightarrow> Inl e
                   | Inr (self'', d') \<Rightarrow> Inr (total self'', self'', d')))"
  by (simp add: update_total.simps recomputed_def Let_def split: option.splits)

lemma get_cart_recomputed [simp]: "get_cart d (recomputed c a) = get_cart d a"
  by (simp add: get_cart_def recomputed_def)

lemma save_unfold:
  "save gen d self =
     (if get_cart d self = None then Inl DoesNotExist
      else (case save_once gen d self of
        (self2, d2, created) \<Rightarrow>
          if created
          then (case get_cart d2 self2 of None \<Rightarrow> Inl DoesNotExist
                | Some c \<Rightarrow> (case save_once gen d2 (recomputed c self2) of
                               (self3, d3, created') \<Rightarrow> Inr (self3, d3)))
          else Inr (self2, d2)))"
proof (cases "get_cart d self = None")
  case True
  then show ?thesis by (simp add: save.simps pre_save_eq)
next
  case False
  obtain self2 d2 created where s: "save_once gen d self = (self2, d2, created)"
    by (cases "save_once gen d self") auto
  have ex: "row_exists d2 self2" using s by (rule save_once_exists)
  have "save gen d self = order_post_save_receiver gen d2 self2 created"
    using s False by (auto simp: save.simps pre_save_eq save_once_def split: prod.splits)
  also have "\<dots> = (if created
          then (case get_cart d2 self2 of None \<Rightarrow> Inl DoesNotExist
                | Some c \<Rightarrow> (case save_once gen d2 (recomputed c self2) of
                               (self3, d3, created') \<Rightarrow> Inr (self3, d3)))
          else Inr (self2, d2))"
    using ex
    by (auto simp: order_post_save_receiver.simps update_total_unfold save_existing
        split: option.splits prod.splits sum.splits)
  finally show ?thesis by (simp add: s False)
qed

definition deactivate :: "order \<Rightarrow> order \<Rightarrow> order" where
  "deactivate instance r = (if stale instance r then r\<lparr>active := False\<rparr> else r)"

lemma pre_save_orders:
  "snd (pre_save_writes gen d self) = d\<lparr>orders := map (deactivate self) (orders d)\<rparr>"
proof -
  have st: "stale (self\<lparr>order_id := x\<rparr>) = stale self" for x
    by (simp add: stale_def fun_eq_iff)
  have idem: "filter (stale self) (orders d) = [] \<Longrightarrow> map (deactivate self) (orders d) = orders d"
    by (simp add: filter_empty_conv deactivate_def map_idI)
  show ?thesis
    using idem by (auto simp: pre_save_writes_def Let_def st deactivate_def [abs_def])
qed

lemma pre_save_instance:
  "fst (pre_save_writes gen d self) =
     self\<lparr>order_id := (if order_id self = [] then gen d self else order_id self)\<rparr>"
  by (simp add: pre_save_writes_def Let_def)

lemma next_pk_map: "map pk rs' = map pk rs \<Longrightarrow> next_pk rs' = next_pk rs"
proof -
  assume a: "map pk rs' = map pk rs"
  have "map (\<lambda>r. case pk r of None \<Rightarrow> 0 | Some i \<Rightarrow> i) rs = map (\<lambda>p. case p of None \<Rightarrow> 0 | Some i \<Rightarrow> i) (map pk rs)" for rs :: "order list"
    by (simp add: o_def)
  then show ?thesis using a by (simp add: next_pk_def del: map_map)
qed

lemma deactivate_pk [simp]: "pk (deactivate instance r) = pk r"
  by (simp add: deactivate_def)

lemma save_once_instance:
  assumes "save_once gen d self = (self2, d2, created)"
  shows "self2 = self\<lparr>order_id := (if order_id self = [] then gen d self else order_id self),
                     pk := (case pk self of None \<Rightarrow> Some (next_pk (orders d)) | Some i \<Rightarrow> Some i)\<rparr>"
proof -
  obtain self1 d1 where p: "pre_save_writes gen d self = (self1, d1)"
    by (cases "pre_save_writes gen d self") auto
  have s1: "self1 = self\<lparr>order_id := (if order_id self = [] then gen d self else order_id self)\<rparr>"
    using pre_save_instance[of gen d self] p by simp
  have d1: "d1 = d\<lparr>orders := map (deactivate self) (orders d)\<rparr>"
    using pre_save_orders[of gen d self] p by simp
  have np: "next_pk (orders d1) = next_pk (orders d)"
    by (rule next_pk_map) (simp add: d1 o_def)
  from assms p have w: "write_row d1 self1 = (self2, d2, created)"
    by (simp add: save_once_def)
  show ?thesis
    using w np unfolding s1
    by (cases "pk self") (auto simp: write_row_def Let_def split: if_splits)
qed

lemma save_once_carts:
  assumes "save_once gen d self = (self2, d2, created)"
  shows "carts d2 = carts d"
proof -
  obtain self1 d1 where p: "pre_save_writes gen d self = (self1, d1)"
    by (cases "pre_save_writes gen d self") auto
  have d1: "d1 = d\<lparr>orders := map (deactivate self) (orders d)\<rparr>"
    using pre_save_orders[of gen d self] p by simp
  from assms p have w: "write_row d1 self1 = (self2, d2, created)"
    by (simp add: save_once_def)
  then show ?thesis unfolding d1
    by (auto simp: write_row_def Let_def split: option.splits if_splits)
qed

lemma write_row_rows:
  assumes "write_row d self = (self2, d2, created)" and "r2 \<in> set (orders d2)"
  shows "r2 = to_row self2 \<or> r2 \<in> set (orders d)"
  using assms by (auto simp: write_row_def Let_def split: option.splits if_splits)

lemma write_row_persisted:
  assumes "write_row d self = (self2, d2, created)"
  shows "to_row self2 \<in> set (orders d2)"
proof (cases "row_exists d self")
  case True
  then obtain i where i: "pk self = Some i"
    by (auto simp: row_exists_iff)
  with True obtain r where r: "r \<in> set (orders d)" "pk r = Some i"
    by (auto simp: row_exists_def filter_empty_conv)
  from assms i True have eq: "self2 = self"
    "orders d2 = map (\<lambda>r. if pk r = Some i then to_row self else r) (orders d)"
    by (auto simp: write_row_def)
  have "(\<lambda>r. if pk r = Some i then to_row self else r) r
          \<in> (\<lambda>r. if pk r = Some i then to_row self else r) ` set (orders d)"
    using r(1) by (rule imageI)
  then show ?thesis unfolding eq using r(2) by simp
next
  case False
  with assms show ?thesis
    by (auto simp: write_row_def Let_def split: option.splits if_splits)
qed

lemma save_once_persisted:
  "save_once gen d self = (self2, d2, created) \<Longrightarrow> to_row self2 \<in> set (orders d2)"
  by (auto simp: save_once_def split: prod.splits dest: write_row_persisted)

lemma save_once_rows:
  assumes "save_once gen d self = (self2, d2, created)" and "r2 \<in> set (orders d2)"
  shows "r2 = to_row self2 \<or> (\<exists>r\<in>set (orders d). r2 = deactivate self r)"
proof -
  obtain self1 d1 where p: "pre_save_writes gen d self = (self1, d1)"
    by (cases "pre_save_writes gen d self") auto
  have d1: "d1 = d\<lparr>orders := map (deactivate self) (orders d)\<rparr>"
    using pre_save_orders[of gen d self] p by simp
  from assms p have w: "write_row d1 self1 = (self2, d2, created)"
    by (simp add: save_once_def)
  from write_row_rows[OF w assms(2)] show ?thesis
    unfolding d1 by auto
qed

lemma fold_max_ge: "(x::nat) \<in> set xs \<Longrightarrow> x \<le> fold max xs a"
proof -
  assume "x \<in> set xs"
  then have "x \<le> Max (set (a # xs))" by simp
  then show ?thesis by (simp only: Max.set_eq_fold)
qed

lemma next_pk_fresh: "r \<in> set rs \<Longrightarrow> pk r \<noteq> Some (next_pk rs)"
proof
  assume r: "r \<in> set rs" and p: "pk r = Some (next_pk rs)"
  have "(case pk r of None \<Rightarrow> 0 | Some i \<Rightarrow> i) \<in> set (map (\<lambda>r. case pk r of None \<Rightarrow> 0 | Some i \<Rightarrow> i) rs)"
    using r by simp
  then have "(case pk r of None \<Rightarrow> 0 | Some i \<Rightarrow> i) \<le> fold max (map (\<lambda>r. case pk r of None \<Rightarrow> 0 | Some i \<Rightarrow> i) rs) 0"
    by (rule fold_max_ge)
  then show False using p by (simp add: next_pk_def)
qed

lemma write_row_others:
  assumes "write_row d self = (self2, d2, created)" and "r2 \<in> set (orders d2)"
  shows "r2 = to_row self2 \<or> (r2 \<in> set (orders d) \<and> pk r2 \<noteq> pk self2)"
proof (cases "pk self")
  case None
  with assms show ?thesis
    by (auto simp: write_row_def Let_def dest: next_pk_fresh)
next
  case (Some i)
  show ?thesis
  proof (cases "row_exists d self")
    case True
    with assms Some show ?thesis by (auto simp: write_row_def split: if_splits)
  next
    case False
    then have "\<forall>r\<in>set (orders d). pk r \<noteq> Some i"
      using Some by (auto simp: row_exists_def filter_empty_conv)
    with assms Some False show ?thesis by (auto simp: write_row_def)
  qed
qed

lemma write_row_keeps:
  assumes "write_row d self = (self2, d2, created)" and "r \<in> set (orders d)" and "pk r \<noteq> pk self2"
  shows "r \<in> set (orders d2)"
  using assms by (auto simp: write_row_def Let_def split: option.splits if_splits)

lemma save_once_others:
  assumes "save_once gen d self = (self2, d2, created)" and "r2 \<in> set (orders d2)"
  shows "r2 = to_row self2 \<or> (\<exists>r\<in>set (orders d). r2 = deactivate self r \<and> pk r \<noteq> pk self2)"
proof -
  obtain self1 d1 where p: "pre_save_writes gen d self = (self1, d1)"
    by (cases "pre_save_writes gen d self") auto
  have d1: "d1 = d\<lparr>orders := map (deactivate self) (orders d)\<rparr>"
    using pre_save_orders[of gen d self] p by simp
  from assms p have w: "write_row d1 self1 = (self2, d2, created)"
    by (simp add: save_once_def)
  from write_row_others[OF w assms(2)] show ?thesis
    unfolding d1 by auto
qed

lemma save_once_keeps:
  assumes "save_once gen d self = (self2, d2, created)" and "r \<in> set (orders d)" and "pk r \<noteq> pk self2"
  shows "deactivate self r \<in> set (orders d2)"
proof -
  obtain self1 d1 where p: "pre_save_writes gen d self = (self1, d1)"
    by (cases "pre_save_writes gen d self") auto
  have d1: "d1 = d\<lparr>orders := map (deactivate self) (orders d)\<rparr>"
    using pre_save_orders[of gen d self] p by simp
  from assms p have w: "write_row d1 self1 = (self2, d2, created)"
    by (simp add: save_once_def)
  have "deactivate self r \<in> set (orders d1)" using assms(2) by (simp add: d1)
  moreover have "pk (deactivate self r) \<noteq> pk self2" using assms(3) by simp
  ultimately show ?thesis by (rule write_row_keeps[OF w])
qed

lemma stale_cong: "cart a = cart b \<Longrightarrow> billing_profile a = billing_profile b \<Longrightarrow> stale a = stale b"
  by (simp add: stale_def fun_eq_iff)

lemma deactivate_cong:
  "cart a = cart b \<Longrightarrow> billing_profile a = billing_profile b \<Longrightarrow> deactivate a = deactivate b"
  using stale_cong[of a b] by (simp add: deactivate_def fun_eq_iff)

lemma deactivate_idem [simp]: "deactivate a (deactivate a r) = deactivate a r"
  by (simp add: deactivate_def stale_def)

text \<open>The outcome of a save, in one statement.\<close>

definition same_fields :: "order \<Rightarrow> order \<Rightarrow> bool" where
  "same_fields self self' \<longleftrightarrow>
     billing_profile self' = billing_profile self \<and> shipping_address self' = shipping_address self
     \<and> billing_address self' = billing_address self \<and> cart self' = cart self
     \<and> status self' = status self \<and> shipping_total self' = shipping_total self
     \<and> active self' = active self"

definition saved :: "id_generator \<Rightarrow> db \<Rightarrow> order \<Rightarrow> order \<Rightarrow> db \<Rightarrow> bool" where
  "saved gen d self self' d' \<longleftrightarrow>
     same_fields self self'
     \<and> pk self' = (case pk self of None \<Rightarrow> Some (next_pk (orders d)) | Some i \<Rightarrow> Some i)
     \<and> (if order_id self = [] then order_id self' = gen d self \<or> gen d self = []
         else order_id self' = order_id self)
     \<and> carts d' = carts d
     \<and> to_row self' \<in> set (orders d')
     \<and> set (orders d') - {to_row self'} \<subseteq> deactivate self ` {r \<in> set (orders d). pk r \<noteq> pk self'}
     \<and> deactivate self ` {r \<in> set (orders d). pk r \<noteq> pk self'} \<subseteq> set (orders d')"

lemma save_once_saved:
  assumes "save_once gen d self = (self2, d2, created)"
  shows "saved gen d self self2 d2" and "total self2 = total self"
proof -
  note i = save_once_instance[OF assms]
  show "total self2 = total self" by (subst i) simp
  have 1: "same_fields self self2"
    unfolding same_fields_def by (subst i, simp)+
  have 2: "pk self2 = (case pk self of None \<Rightarrow> Some (next_pk (orders d)) | Some i \<Rightarrow> Some i)"
    by (subst i) simp
  have 3: "if order_id self = [] then order_id self2 = gen d self \<or> gen d self = []
           else order_id self2 = order_id self"
    using arg_cong[OF i, of order_id] by simp
  have 4: "set (orders d2) - {to_row self2} \<subseteq> deactivate self ` {r \<in> set (orders d). pk r \<noteq> pk self2}"
    using save_once_others[OF assms] by blast
  have 5: "deactivate self ` {r \<in> set (orders d). pk r \<noteq> pk self2} \<subseteq> set (orders d2)"
    using save_once_keeps[OF assms] by blast
  show "saved gen d self self2 d2"
    unfolding saved_def
    by (intro conjI 1 2 3 4 5 save_once_carts[OF assms] save_once_persisted[OF assms])
qed

lemma get_cart_cong: "carts d' = carts d \<Longrightarrow> cart self' = cart self \<Longrightarrow> get_cart d' self' = get_cart d self"
  by (simp add: get_cart_def)

lemma same_fieldsD:
  assumes "same_fields a b"
  shows "billing_profile b = billing_profile a" "shipping_address b = shipping_address a"
    "billing_address b = billing_address a" "cart b = cart a" "status b = status a"
    "shipping_total b = shipping_total a" "active b = active a"
  using assms by (simp_all add: same_fields_def)

lemma same_fields_recomputed: "same_fields a (recomputed c a)"
  by (simp add: same_fields_def recomputed_def)

lemma same_fields_trans: "same_fields a b \<Longrightarrow> same_fields b c \<Longrightarrow> same_fields a c"
  by (simp add: same_fields_def)

lemma recomputed_more [simp]:
  "pk (recomputed c a) = pk a" "order_id (recomputed c a) = order_id a"
  by (simp_all add: recomputed_def)

lemma total_recomputed_cong:
  "shipping_total b = shipping_total a \<Longrightarrow> total (recomputed c b) = total (recomputed c a)"
  by (simp add: recomputed_def)

lemma savedD:
  assumes "saved gen d self self' d'"
  shows "same_fields self self'"
    and "pk self' = (case pk self of None \<Rightarrow> Some (next_pk (orders d)) | Some i \<Rightarrow> Some i)"
    and "if order_id self = [] then order_id self' = gen d self \<or> gen d self = []
         else order_id self' = order_id self"
    and "carts d' = carts d"
    and "to_row self' \<in> set (orders d')"
    and "set (orders d') - {to_row self'} \<subseteq> deactivate self ` {r \<in> set (orders d). pk r \<noteq> pk self'}"
    and "deactivate self ` {r \<in> set (orders d). pk r \<noteq> pk self'} \<subseteq> set (orders d')"
proof -
  have a: "same_fields self self' \<and>
     pk self' = (case pk self of None \<Rightarrow> Some (next_pk (orders d)) | Some i \<Rightarrow> Some i) \<and>
     (if order_id self = [] then order_id self' = gen d self \<or> gen d self = []
      else order_id self' = order_id self) \<and>
     carts d' = carts d \<and> to_row self' \<in> set (orders d') \<and>
     set (orders d') - {to_row self'} \<subseteq> deactivate self ` {r \<in> set (orders d). pk r \<noteq> pk self'} \<and>
     deactivate self ` {r \<in> set (orders d). pk r \<noteq> pk self'} \<subseteq> set (orders d')"
    using assms unfolding saved_def .
  note b = a[THEN conjunct2] note c = b[THEN conjunct2] note e = c[THEN conjunct2]
  note f = e[THEN conjunct2] note g = f[THEN conjunct2]
  show "same_fields self self'" by (rule a[THEN conjunct1])
  show "pk self' = (case pk self of None \<Rightarrow> Some (next_pk (orders d)) | Some i \<Rightarrow> Some i)"
    by (rule b[THEN conjunct1])
  show "if order_id self = [] then order_id self' = gen d self \<or> gen d self = []
         else order_id self' = order_id self" by (rule c[THEN conjunct1])
  show "carts d' = carts d" by (rule e[THEN conjunct1])
  show "to_row self' \<in> set (orders d')" by (rule f[THEN conjunct1])
  show "set (orders d') - {to_row self'} \<subseteq> deactivate self ` {r \<in> set (orders d). pk r \<noteq> pk self'}"
    by (rule g[THEN conjunct1])
  show "deactivate self ` {r \<in> set (orders d). pk r \<noteq> pk self'} \<subseteq> set (orders d')"
    by (rule g[THEN conjunct2])
qed

text \<open>A save of a new order: two passes, the second on the order with its total recomputed.\<close>

lemma save_created:
  assumes s1: "save_once gen d self = (self2, d2, True)"
    and c: "get_cart d self = Some c"
    and s2: "save_once gen d2 (recomputed c self2) = (self3, d3, created')"
  shows "save gen d self = Inr (self3, d3)" and "saved gen d self self3 d3"
    and "total self3 = total (recomputed c self)"
proof -
  note a1 = save_once_saved[OF s1] and a2 = save_once_saved[OF s2]
  note sv1 = savedD(1)[OF a1(1)] and pk1 = savedD(2)[OF a1(1)] and oid1 = savedD(3)[OF a1(1)]
    and carts1 = savedD(4)[OF a1(1)] and pers1 = savedD(5)[OF a1(1)]
    and sub1 = savedD(6)[OF a1(1)] and sup1 = savedD(7)[OF a1(1)]
  let ?r = "recomputed c self2"
  note sv2 = savedD(1)[OF a2(1)] and pk2 = savedD(2)[OF a2(1)] and oid2 = savedD(3)[OF a2(1)]
    and carts2 = savedD(4)[OF a2(1)] and pers2 = savedD(5)[OF a2(1)]
    and sub2 = savedD(6)[OF a2(1)] and sup2 = savedD(7)[OF a2(1)]
  have gc: "get_cart d2 self2 = Some c"
    using c get_cart_cong[OF carts1 same_fieldsD(4)[OF sv1]] by simp
  show "save gen d self = Inr (self3, d3)"
    by (subst save_unfold) (simp add: s1 c gc s2)
  have pk3: "pk self3 = pk self2"
    using pk2 pk1 by (auto split: option.splits)
  have sf: "same_fields self self3"
    by (rule same_fields_trans[OF sv1 same_fields_trans[OF same_fields_recomputed sv2]])
  have de: "deactivate ?r = deactivate self"
    by (rule deactivate_cong)
      (simp_all add: same_fieldsD[OF sv1] same_fieldsD[OF same_fields_recomputed[of self2 c]])
  have oid: "if order_id self = [] then order_id self3 = gen d self \<or> gen d self = [] else order_id self3 = order_id self"
    using oid1 oid2 by (auto split: if_splits)
  have sub: "set (orders d3) - {to_row self3} \<subseteq> deactivate self ` {r \<in> set (orders d). pk r \<noteq> pk self3}"
  proof
    fix x assume x: "x \<in> set (orders d3) - {to_row self3}"
    with sub2 obtain r where r: "r \<in> set (orders d2)" "pk r \<noteq> pk self3" "x = deactivate self r"
      unfolding de by blast
    have "r \<noteq> to_row self2" using r(2) pk3 by auto
    with r(1) sub1 obtain r0 where r0: "r0 \<in> set (orders d)" "pk r0 \<noteq> pk self2" "r = deactivate self r0"
      by blast
    have xe: "x = deactivate self r0" using r(3) r0(3) by simp
    have "r0 \<in> {r \<in> set (orders d). pk r \<noteq> pk self3}" using r0(1,2) pk3 by simp
    then show "x \<in> deactivate self ` {r \<in> set (orders d). pk r \<noteq> pk self3}"
      unfolding xe by (rule imageI)
  qed
  have sup: "deactivate self ` {r \<in> set (orders d). pk r \<noteq> pk self3} \<subseteq> set (orders d3)"
  proof
    fix x assume "x \<in> deactivate self ` {r \<in> set (orders d). pk r \<noteq> pk self3}"
    then obtain r0 where r0: "r0 \<in> set (orders d)" "pk r0 \<noteq> pk self3" "x = deactivate self r0"
      by blast
    have "deactivate self r0 \<in> set (orders d2)" using sup1 r0(1,2) pk3 by auto
    moreover have "pk (deactivate self r0) \<noteq> pk self3" using r0(2) by simp
    ultimately have "deactivate ?r (deactivate self r0) \<in> set (orders d3)" using sup2 by blast
    then show "x \<in> set (orders d3)" using r0(3) by (simp add: de)
  qed
  show "saved gen d self self3 d3"
    unfolding saved_def
    using pk3 pk1 carts1 carts2
    by (intro conjI sf oid pers2 sub sup) simp_all
  show "total self3 = total (recomputed c self)"
    using a2(2) total_recomputed_cong[OF same_fieldsD(6)[OF sv1]] by simp
qed

section \<open>Rounding errors\<close>

lemma round_half_even_bound: "\<bar>of_int (round_half_even x) - x\<bar> \<le> 1 / 2"
proof -
  have f: "of_int \<lfloor>x\<rfloor> \<le> x" "x < of_int \<lfloor>x\<rfloor> + 1" by linarith+
  show ?thesis
    unfolding round_half_even_def Let_def using f by (auto simp: abs_if) linarith+
qed

lemma round_half_even_near:
  assumes "\<bar>x - of_int n\<bar> < 1 / 2"
  shows "round_half_even x = n"
proof -
  have "\<bar>of_int (round_half_even x) - of_int n :: rat\<bar> < 1"
    using round_half_even_bound[of x] assms by linarith
  then have "\<bar>of_int (round_half_even x - n) :: rat\<bar> < 1" by simp
  then have "\<bar>round_half_even x - n\<bar> < 1"
    by (metis of_int_abs of_int_less_1_iff)
  then show ?thesis by linarith
qed

lemma ilog2_le:
  assumes "0 < x"
  shows "2 powi (ilog2 x) \<le> x"
proof -
  obtain p q where pq: "quotient_of x = (p, q)" by (cases "quotient_of x") auto
  then have q: "0 < q" and x: "x = of_int p / of_int q"
    using quotient_of_denom_pos quotient_of_div by blast+
  have p: "0 < p" using assms q x by (simp add: zero_less_divide_iff)
  let ?k = "bitlen p - bitlen q"
  show ?thesis
  proof (cases "2 powi ?k \<le> x")
    case True
    then show ?thesis by (simp add: ilog2_def pq)
  next
    case False
    have bp: "2 ^ nat (bitlen p - 1) \<le> p" and bq: "q < 2 ^ nat (bitlen q)"
      using bitlen_bounds[OF p] bitlen_bounds[OF q] by auto
    have bp1: "1 \<le> bitlen p" using p bitlen_eq_zero_iff[of p] bitlen_nonneg[of p] by linarith
    have bq0: "0 \<le> bitlen q" by (rule bitlen_nonneg)
    have "(2::rat) powi (bitlen p - 1) = of_int (2 ^ nat (bitlen p - 1))"
      using bp1 by (simp add: power_int_def)
    also have "\<dots> \<le> of_int p" using bp by (simp only: of_int_le_iff)
    finally have P: "(2::rat) powi (bitlen p - 1) \<le> of_int p" .
    have "(of_int q :: rat) \<le> of_int (2 ^ nat (bitlen q))" using bq by (simp only: of_int_le_iff less_imp_le)
    also have "\<dots> = 2 powi (bitlen q)" using bq0 by (simp add: power_int_def)
    finally have Q: "(of_int q :: rat) \<le> 2 powi (bitlen q)" .
    have Qpos: "(0::rat) < of_int q" using q by simp
    have "?k - 1 = (bitlen p - 1) - bitlen q" by simp
    then have "(2::rat) powi (?k - 1) = 2 powi ((bitlen p - 1) - bitlen q)" by (simp only:)
    also have "\<dots> = 2 powi (bitlen p - 1) / 2 powi (bitlen q)"
      by (rule power_int_diff) simp
    also have "\<dots> \<le> of_int p / 2 powi (bitlen q)"
      using P by (simp add: divide_right_mono)
    also have "\<dots> \<le> of_int p / of_int q"
      using Q Qpos p by (simp add: frac_le)
    finally have "(2::rat) powi (?k - 1) \<le> x" using x by simp
    with False show ?thesis by (simp add: ilog2_def pq)
  qed
qed

lemma round_double_error: "\<bar>round_double x - x\<bar> \<le> \<bar>x\<bar> / 2 ^ 53"
proof (cases "x = 0")
  case True
  then show ?thesis by (simp add: round_double_def)
next
  case False
  define e where "e = ilog2 \<bar>x\<bar> - 52"
  define y where "y = \<bar>x\<bar> / 2 powi e"
  define m where "m = round_half_even y"
  have pe: "(0::rat) < 2 powi e" by (simp add: zero_less_power_int)
  have rd: "round_double x = sgn x * of_int m * 2 powi e"
    using False by (simp add: round_double_def Let_def e_def y_def m_def)
  have ax: "\<bar>x\<bar> = y * 2 powi e" using pe by (simp add: y_def)
  have "round_double x - x = sgn x * ((of_int m - y) * 2 powi e)"
  proof -
    have "x = sgn x * \<bar>x\<bar>" by (simp add: sgn_mult_abs)
    then have "x = sgn x * (y * 2 powi e)" using ax by simp
    then show ?thesis unfolding rd by (simp add: algebra_simps)
  qed
  then have "\<bar>round_double x - x\<bar> = \<bar>of_int m - y\<bar> * 2 powi e"
    using False pe by (simp add: abs_mult abs_sgn_eq)
  also have "\<dots> \<le> (1 / 2) * 2 powi e"
    using round_half_even_bound[of y] pe unfolding m_def by (simp add: mult_right_mono)
  also have "\<dots> \<le> \<bar>x\<bar> / 2 ^ 53"
  proof -
    have "(2::rat) powi (ilog2 \<bar>x\<bar>) \<le> \<bar>x\<bar>" using False by (intro ilog2_le) simp
    moreover have "(2::rat) powi e = 2 powi (ilog2 \<bar>x\<bar>) / 2 ^ 52"
      unfolding e_def by (simp add: power_int_diff)
    ultimately show ?thesis by simp
  qed
  finally show ?thesis .
qed

lemma to_float_error:
  "\<bar>to_float n - value_of n\<bar> \<le> \<bar>value_of n\<bar> / 2 ^ 53"
proof (cases n)
  case (Dec c)
  show ?thesis unfolding Dec to_float.simps value_of.simps by (rule round_double_error)
next
  case (Flt x)
  show ?thesis unfolding Flt by simp
qed

lemma format_fsum_exact:
  fixes a b :: int and x' y' :: rat
  assumes a: "\<bar>a\<bar> \<le> 10 ^ 15" and b: "\<bar>b\<bar> \<le> 10 ^ 15"
    and ex: "\<bar>x' - of_int a / 100\<bar> \<le> \<bar>of_int a / 100\<bar> / 2 ^ 53"
    and ey: "\<bar>y' - of_int b / 100\<bar> \<le> \<bar>of_int b / 100\<bar> / 2 ^ 53"
  shows "format_2f (fsum [x', y']) = a + b"
proof -
  define x :: rat where "x = of_int a / 100"
  define y :: rat where "y = of_int b / 100"
  define s where "s = round_double (x' + y')"
  have "\<bar>of_int a :: rat\<bar> \<le> 10 ^ 15"
    using a by (metis of_int_abs of_int_le_iff of_int_numeral of_int_power)
  then have ax: "\<bar>x\<bar> \<le> 10 ^ 13" by (simp add: x_def)
  have "\<bar>of_int b :: rat\<bar> \<le> 10 ^ 15"
    using b by (metis of_int_abs of_int_le_iff of_int_numeral of_int_power)
  then have ay: "\<bar>y\<bar> \<le> 10 ^ 13" by (simp add: y_def)
  have ex': "\<bar>x' - x\<bar> \<le> 10 ^ 13 / 2 ^ 53"
    using ex ax unfolding x_def[symmetric] by (simp add: divide_right_mono order_trans[OF ex[unfolded x_def[symmetric]]])
  have ey': "\<bar>y' - y\<bar> \<le> 10 ^ 13 / 2 ^ 53"
    using ey ay unfolding y_def[symmetric] by (simp add: divide_right_mono order_trans[OF ey[unfolded y_def[symmetric]]])
  have sum: "\<bar>x' + y'\<bar> \<le> 2 * 10 ^ 13 + 2 * (10 ^ 13 / 2 ^ 53)"
    using ax ay ex' ey' by linarith
  have "\<bar>s - (x' + y')\<bar> \<le> \<bar>x' + y'\<bar> / 2 ^ 53"
    unfolding s_def by (rule round_double_error)
  also have "\<dots> \<le> (2 * 10 ^ 13 + 2 * (10 ^ 13 / 2 ^ 53)) / 2 ^ 53"
    using sum by (simp add: divide_right_mono)
  finally have es: "\<bar>s - (x' + y')\<bar> \<le> (2 * 10 ^ 13 + 2 * (10 ^ 13 / 2 ^ 53)) / 2 ^ 53" .
  have "\<bar>s - (x + y)\<bar> \<le> (2 * 10 ^ 13 + 2 * (10 ^ 13 / 2 ^ 53)) / 2 ^ 53 + 2 * (10 ^ 13 / 2 ^ 53)"
    using es ex' ey' by linarith
  also have "\<dots> < 1 / 200" by simp
  finally have "\<bar>s - (x + y)\<bar> < 1 / 200" .
  then have "100 * \<bar>s - (x + y)\<bar> < 1 / 2" by simp
  moreover have "\<bar>100 * s - 100 * (x + y)\<bar> = 100 * \<bar>s - (x + y)\<bar>"
    unfolding right_diff_distrib[symmetric] abs_mult by simp
  ultimately have "\<bar>100 * s - 100 * (x + y)\<bar> < 1 / 2" by (simp only:)
  moreover have "100 * (x + y) = of_int (a + b)" by (simp add: x_def y_def)
  ultimately have "\<bar>100 * s - of_int (a + b)\<bar> < 1 / 2" by simp
  then have "round_half_even (100 * s) = a + b" by (rule round_half_even_near)
  then show ?thesis by (simp add: format_2f_def fsum_def s_def)
qed

lemma recomputed_exact:
  assumes "value_of (cart_total c) = of_int a / 100" and "value_of (shipping_total self) = of_int b / 100"
    and "\<bar>a\<bar> \<le> 10 ^ 15" and "\<bar>b\<bar> \<le> 10 ^ 15"
  shows "total (recomputed c self) = Str2f (a + b)"
proof -
  have "format_2f (fsum [to_float (cart_total c), to_float (shipping_total self)]) = a + b"
    using assms(3,4)
  proof (rule format_fsum_exact)
    show "\<bar>to_float (cart_total c) - of_int a / 100\<bar> \<le> \<bar>of_int a / 100\<bar> / 2 ^ 53"
      using to_float_error[of "cart_total c"] assms(1) by simp
    show "\<bar>to_float (shipping_total self) - of_int b / 100\<bar> \<le> \<bar>of_int b / 100\<bar> / 2 ^ 53"
      using to_float_error[of "shipping_total self"] assms(2) by simp
  qed
  then show ?thesis by (simp add: recomputed_def)
qed

lemma save_raises:
  assumes "get_cart d self = None"
  shows "save gen d self = Inl DoesNotExist"
  by (simp add: save_unfold assms)

lemma save_Inr:
  assumes "save gen d self = Inr (self', d')"
  shows "saved gen d self self' d' \<and> get_cart d self \<noteq> None
         \<and> total self' = (if row_exists d self then total self
                           else total (recomputed (the (get_cart d self)) self))"
proof -
  have "get_cart d self \<noteq> None"
  proof
    assume "get_cart d self = None"
    from save_raises[OF this, of gen] assms show False by simp
  qed
  then obtain c where c: "get_cart d self = Some c" by auto
  obtain self2 d2 created where s: "save_once gen d self = (self2, d2, created)"
    by (cases "save_once gen d self") auto
  note cr = save_once_created[OF s]
  show ?thesis
  proof (cases created)
    case False
    then have re: "row_exists d self" using cr by simp
    from assms s False c have eq: "self' = self2" "d' = d2" by (simp_all add: save_unfold)
    show ?thesis using save_once_saved[OF s] re c unfolding eq by simp
  next
    case True
    then have nre: "\<not> row_exists d self" using cr by simp
    obtain self3 d3 cr' where s2: "save_once gen d2 (recomputed c self2) = (self3, d3, cr')"
      by (cases "save_once gen d2 (recomputed c self2)") auto
    have sT: "save_once gen d self = (self2, d2, True)" using s True by simp
    note sc = save_created[OF sT c s2]
    from assms sc(1) have eq: "self' = self3" "d' = d3" by simp_all
    show ?thesis using sc(2,3) nre c unfolding eq by simp
  qed
qed

lemma save_succeeds:
  assumes "get_cart d self \<noteq> None"
  shows "\<exists>self' d'. save gen d self = Inr (self', d')"
proof -
  from assms obtain c where c: "get_cart d self = Some c" by auto
  obtain self2 d2 created where s: "save_once gen d self = (self2, d2, created)"
    by (cases "save_once gen d self") auto
  show ?thesis
  proof (cases created)
    case False
    with s c show ?thesis by (simp add: save_unfold)
  next
    case True
    obtain self3 d3 cr' where s2: "save_once gen d2 (recomputed c self2) = (self3, d3, cr')"
      by (cases "save_once gen d2 (recomputed c self2)") auto
    have sT: "save_once gen d self = (self2, d2, True)" using s True by simp
    from save_created(1)[OF sT c s2] show ?thesis by blast
  qed
qed

lemma recomputed_fields [simp]:
  "cart (recomputed c a) = cart a" "shipping_total (recomputed c a) = shipping_total a"
  "billing_profile (recomputed c a) = billing_profile a" "status (recomputed c a) = status a"
  "active (recomputed c a) = active a"
  by (simp_all add: recomputed_def)

lemma recomputed_twice [simp]: "total (recomputed c (recomputed c' a)) = total (recomputed c a)"
  by (simp add: recomputed_def)

lemma update_total_Inr:
  assumes c: "get_cart d self = Some c"
  shows "\<exists>self' d'. update_total gen d self = Inr (total (recomputed c self), self', d')
           \<and> saved gen d (recomputed c self) self' d' \<and> total self' = total (recomputed c self)"
proof -
  have "get_cart d (recomputed c self) \<noteq> None"
    using c by simp
  from save_succeeds[OF this, of gen] obtain self' d'
    where s: "save gen d (recomputed c self) = Inr (self', d')" by blast
  from save_Inr[OF s] have sv: "saved gen d (recomputed c self) self' d'"
    and t: "total self' = total (recomputed c self)"
    using c by (simp_all split: if_splits)
  show ?thesis using s sv t c by (simp add: update_total_unfold)
qed

lemma update_total_raises: "get_cart d self = None \<Longrightarrow> update_total gen d self = Inl DoesNotExist"
  by (simp add: update_total_unfold)

section \<open>Example data\<close>

text \<open>
  Concrete carts, orders and tables on which the statements below are evaluated: a
  digital and a physical cart of 100.00 each, and one order on each with billing profile
  and billing address set, no shipping address, and a stored total of 150.00. The
  generator numbers the orders.
\<close>

definition example_gen :: id_generator where
  "example_gen d x = ''id'' @ show_nat (length (orders d))"

definition cart_digital :: cart where
  "cart_digital = \<lparr>cart_id = 1, cart_total = Dec 10000, is_digital = True\<rparr>"

definition cart_physical :: cart where
  "cart_physical = \<lparr>cart_id = 2, cart_total = Dec 10000, is_digital = False\<rparr>"

definition order_digital :: order where
  "order_digital = \<lparr>pk = Some 1, order_id = ''id0'', billing_profile = Some 1, shipping_address = None,
     billing_address = Some 1, cart = 1, status = ''created'', shipping_total = Dec 5000,
     total = Num (Dec 15000), active = True\<rparr>"

definition order_physical :: order where
  "order_physical = order_digital\<lparr>pk := Some 2, order_id := ''id1'', cart := 2\<rparr>"

definition example_db :: db where
  "example_db = \<lparr>carts = [cart_digital, cart_physical], orders = [order_digital, order_physical]\<rparr>"

lemmas example_defs = example_gen_def cart_digital_def cart_physical_def order_digital_def
  order_physical_def example_db_def

section \<open>\<open>check_done\<close> and \<open>mark_paid\<close>\<close>

lemma check_done_number:
  assumes "get_cart d self = Some c" and "total self = Num n"
  shows "check_done d self = Inr (billing_profile self \<noteq> None \<and> positive n
           \<and> billing_address self \<noteq> None \<and> (is_digital c \<or> shipping_address self \<noteq> None))"
  using assms by (auto simp: check_done_def Let_def)

lemma check_done_cart: "check_done d self = Inr b \<Longrightarrow> get_cart d self \<noteq> None"
  by (cases "get_cart d self") (auto simp: check_done_def)

lemma get_cart_status [simp]: "get_cart d (self\<lparr>status := s\<rparr>) = get_cart d self"
  by (simp add: get_cart_def)

lemma mark_paid_done:
  assumes "status self \<noteq> ''paid''" and "check_done d self = Inr True"
  shows "\<exists>self' d'. mark_paid gen d self = Inr (''paid'', self', d') \<and> status self' = ''paid''
           \<and> to_row self' \<in> set (orders d') \<and> status (to_row self') = ''paid''
           \<and> saved gen d (self\<lparr>status := ''paid''\<rparr>) self' d'"
proof -
  let ?p = "self\<lparr>status := ''paid''\<rparr>"
  have "get_cart d ?p \<noteq> None"
    using check_done_cart[OF assms(2)] by simp
  from save_succeeds[OF this, of gen] obtain self' d' where s: "save gen d ?p = Inr (self', d')"
    by blast
  from save_Inr[OF s] have sv: "saved gen d ?p self' d'" by simp
  have st: "status self' = ''paid''" using same_fieldsD(5)[OF savedD(1)[OF sv]] by simp
  have "mark_paid gen d self = Inr (''paid'', self', d')"
    using assms s st by (simp add: mark_paid_def)
  moreover have "status (to_row self') = ''paid''" using st by (simp add: to_row_def)
  ultimately show ?thesis using st sv savedD(5)[OF sv] by blast
qed

text \<open>
  C2. \<open>check_done\<close> on an order as \<open>create\<close> returns it: \<open>update_total\<close> has left the
  text \<open>'150.00'\<close> in its \<open>total\<close>, and with billing profile and billing address set on
  a digital cart the comparison \<open>self.total > 0\<close> is reached and raises \<open>TypeError\<close>,
  where the four conditions of the claim all hold.
\<close>

theorem check_done_text_total:
  "(case create example_gen \<lparr>carts = [cart_digital], orders = []\<rparr> (Some 1) cart_digital of
      Inl e \<Rightarrow> None
    | Inr (obj, d) \<Rightarrow> Some (total obj, check_done d (obj\<lparr>billing_address := Some 1\<rparr>)))
   = Some (Str2f 15000, Inl TypeError)"
  by code_simp

text \<open>
  C3. \<open>mark_paid\<close> on an order as \<open>create\<close> returns it, with its billing address set:
  billing profile and billing address set, no shipping address, a digital cart and a total
  of 150.00. The total is the text \<open>update_total\<close> left, \<open>check_done\<close> raises
  \<open>TypeError\<close> on it, and so does \<open>mark_paid\<close>: it returns no status and the order is
  still \<open>'created'\<close>.
\<close>

theorem mark_paid_text_total:
  "(case create example_gen \<lparr>carts = [cart_digital], orders = []\<rparr> (Some 1) cart_digital of
      Inl e \<Rightarrow> None
    | Inr (obj, d) \<Rightarrow>
        Some (total obj, status obj, mark_paid example_gen d (obj\<lparr>billing_address := Some 1\<rparr>)))
   = Some (Str2f 15000, ''created'', Inl TypeError)"
  by code_simp

text \<open>
  On the orders on which \<open>check_done\<close> returns, \<open>mark_paid\<close> does what is expected of
  it: on a paid order it changes nothing and returns \<open>'paid'\<close>; on an order that is not
  paid, when \<open>check_done\<close> returns \<open>True\<close> it sets the status to \<open>'paid'\<close>, the saved
  row carries it, and \<open>'paid'\<close> is returned; when \<open>check_done\<close> returns \<open>False\<close> the
  order and the tables are unchanged and the unchanged status is returned.
\<close>

theorem mark_paid_cases:
  "(status self = ''paid'' \<longrightarrow> mark_paid gen d self = Inr (''paid'', self, d))
   \<and> (status self \<noteq> ''paid'' \<and> check_done d self = Inr True \<longrightarrow>
        (\<exists>self' d'. mark_paid gen d self = Inr (''paid'', self', d') \<and> status self' = ''paid''
           \<and> to_row self' \<in> set (orders d') \<and> status (to_row self') = ''paid''))
   \<and> (status self \<noteq> ''paid'' \<and> check_done d self = Inr False \<longrightarrow>
        mark_paid gen d self = Inr (status self, self, d))"
proof (intro conjI impI)
  assume "status self = ''paid''"
  then show "mark_paid gen d self = Inr (''paid'', self, d)" by (simp add: mark_paid_def)
next
  assume "status self \<noteq> ''paid'' \<and> check_done d self = Inr True"
  then show "\<exists>self' d'. mark_paid gen d self = Inr (''paid'', self', d') \<and> status self' = ''paid''
           \<and> to_row self' \<in> set (orders d') \<and> status (to_row self') = ''paid''"
    using mark_paid_done[of self d gen] by blast
next
  assume "status self \<noteq> ''paid'' \<and> check_done d self = Inr False"
  then show "mark_paid gen d self = Inr (status self, self, d)" by (simp add: mark_paid_def)
qed

theorem mark_paid_cases_witness:
  "(status (order_digital\<lparr>status := ''paid''\<rparr>) = ''paid''
    \<and> mark_paid example_gen example_db (order_digital\<lparr>status := ''paid''\<rparr>)
        = Inr (''paid'', order_digital\<lparr>status := ''paid''\<rparr>, example_db))
   \<and> ((status order_digital \<noteq> ''paid'' \<and> check_done example_db order_digital = Inr True)
      \<and> (\<exists>self' d'. mark_paid example_gen example_db order_digital = Inr (''paid'', self', d')
            \<and> status self' = ''paid'' \<and> to_row self' \<in> set (orders d')
            \<and> status (to_row self') = ''paid''))
   \<and> ((status order_physical \<noteq> ''paid'' \<and> check_done example_db order_physical = Inr False)
      \<and> mark_paid example_gen example_db order_physical
          = Inr (''created'', order_physical, example_db))"
  using mark_paid_cases[of "order_digital\<lparr>status := ''paid''\<rparr>" example_gen example_db]
    mark_paid_cases[of order_digital example_gen example_db]
    mark_paid_cases[of order_physical example_gen example_db]
  by (simp add: check_done_def get_cart_def example_defs)

text \<open>
  C4. A second \<open>mark_paid\<close>, on the order and the tables the first one returned, returns
  the same status, order and tables; the status returned is the order's, and a paid order
  stays paid.
\<close>

theorem mark_paid_idempotent:
  "mark_paid gen d self = Inr (s, self', d') \<longrightarrow>
     mark_paid gen d' self' = Inr (s, self', d') \<and> status self' = s
     \<and> (status self = ''paid'' \<longrightarrow> s = ''paid'')"
proof
  assume a: "mark_paid gen d self = Inr (s, self', d')"
  show "mark_paid gen d' self' = Inr (s, self', d') \<and> status self' = s
     \<and> (status self = ''paid'' \<longrightarrow> s = ''paid'')"
  proof (cases "status self = ''paid''")
    case True
    with a show ?thesis by (auto simp: mark_paid_def)
  next
    case False
    show ?thesis
    proof (cases "check_done d self")
      case (Inl e)
      with a False show ?thesis by (simp add: mark_paid_def)
    next
      case (Inr b)
      show ?thesis
      proof (cases b)
        case True
        with Inr have cd: "check_done d self = Inr True" by simp
        from mark_paid_done[OF False cd, of gen] obtain self1 d1
          where m: "mark_paid gen d self = Inr (''paid'', self1, d1)" and st: "status self1 = ''paid''"
          by blast
        from a m have eq: "s = ''paid''" "self' = self1" "d' = d1" by simp_all
        show ?thesis using st False unfolding eq by (simp add: mark_paid_def)
      next
        case b: False
        with Inr a False have eq: "s = status self" "self' = self" "d' = d"
          by (auto simp: mark_paid_def)
        show ?thesis using a False unfolding eq by simp
      qed
    qed
  qed
qed

theorem mark_paid_idempotent_witness:
  "mark_paid example_gen example_db order_digital
     = Inr (''paid'', order_digital\<lparr>status := ''paid''\<rparr>,
            example_db\<lparr>orders := [order_digital\<lparr>status := ''paid''\<rparr>, order_physical]\<rparr>)
   \<and> mark_paid example_gen (example_db\<lparr>orders := [order_digital\<lparr>status := ''paid''\<rparr>, order_physical]\<rparr>)
        (order_digital\<lparr>status := ''paid''\<rparr>)
     = Inr (''paid'', order_digital\<lparr>status := ''paid''\<rparr>,
            example_db\<lparr>orders := [order_digital\<lparr>status := ''paid''\<rparr>, order_physical]\<rparr>)"
  using mark_paid_idempotent[of example_gen example_db order_digital "''paid''"
      "order_digital\<lparr>status := ''paid''\<rparr>"
      "example_db\<lparr>orders := [order_digital\<lparr>status := ''paid''\<rparr>, order_physical]\<rparr>"]
  by (simp add: mark_paid_def check_done_def get_cart_def example_defs save_unfold save_once_def
      pre_save_writes_def write_row_def row_exists_def stale_def to_row_def Let_def)

section \<open>Identifiers and stale orders\<close>

lemma to_row_fields [simp]:
  "cart (to_row a) = cart a" "billing_profile (to_row a) = billing_profile a"
  "order_id (to_row a) = order_id a" "status (to_row a) = status a" "active (to_row a) = active a"
  by (simp_all add: to_row_def)

lemma stale_deactivate [simp]: "stale a (deactivate b r) = stale a r"
  by (simp add: stale_def deactivate_def)

lemma stale_recomputed [simp]: "stale (recomputed c a) = stale a"
  by (rule stale_cong) simp_all

lemma stale_status [simp]: "stale (a\<lparr>status := s\<rparr>) = stale a"
  by (rule stale_cong) simp_all

lemma saved_siblings:
  assumes sv: "saved gen d self self' d'" and r: "r \<in> set (orders d')" and st: "stale self r"
  shows "\<not> active r"
proof -
  have "\<not> stale self (to_row self')"
    using same_fieldsD(1,4)[OF savedD(1)[OF sv]] by (simp add: stale_def)
  with st have "r \<noteq> to_row self'" by auto
  with r savedD(6)[OF sv] obtain r0 where r0: "r = deactivate self r0" by blast
  with st have "stale self r0" by simp
  then show ?thesis unfolding r0 by (simp add: deactivate_def)
qed

lemma saved_deactivates:
  assumes sv: "saved gen d self self' d'" and r: "r \<in> set (orders d)" and p: "pk r \<noteq> pk self'"
    and st: "stale self r"
  shows "r\<lparr>active := False\<rparr> \<in> set (orders d')"
proof -
  have "r \<in> {r \<in> set (orders d). pk r \<noteq> pk self'}" using r p by simp
  then have "deactivate self r \<in> deactivate self ` {r \<in> set (orders d). pk r \<noteq> pk self'}"
    by (rule imageI)
  then have "deactivate self r \<in> set (orders d')" using savedD(7)[OF sv] by (rule rev_subsetD)
  then show ?thesis using st by (simp add: deactivate_def)
qed

lemma save_order_id:
  assumes "save gen d self = Inr (self', d')"
  shows "order_id self' = (if order_id self = [] \<and> gen d self \<noteq> [] then gen d self else order_id self')"
    and "order_id self \<noteq> [] \<Longrightarrow> order_id self' = order_id self"
  using savedD(3)[OF save_Inr[OF assms, THEN conjunct1]] by (auto split: if_splits)

text \<open>
  C8. For an order whose cart exists, \<open>order_id_pre_save_receiver\<close> gives an order
  without identifier the generated one and leaves one that has an identifier as it is; in
  the stored orders it sets \<open>active\<close> to \<open>False\<close> on every row of the order's cart with
  another billing profile, and changes nothing else. (For an order whose cart's row is
  missing it raises \<open>Cart.DoesNotExist\<close>.) So when an order is created on a stored cart
  (and saved for the first time), each stored order on that cart with another billing
  profile is stored inactive afterwards.
\<close>

theorem pre_save_stale_inactive:
  "(get_cart d instance \<noteq> None \<longrightarrow>
      order_id_pre_save_receiver gen d instance =
        Inr (instance\<lparr>order_id := (if order_id instance = [] then gen d instance else order_id instance)\<rparr>,
             d\<lparr>orders := map (\<lambda>r. if cart r = cart instance \<and> billing_profile r \<noteq> billing_profile instance
                                    then r\<lparr>active := False\<rparr> else r) (orders d)\<rparr>))
   \<and> (get_cart d instance = None \<longrightarrow> order_id_pre_save_receiver gen d instance = Inl DoesNotExist)
   \<and> (find (\<lambda>x. cart_id x = cart_id c) (carts d) = Some c \<longrightarrow>
        (\<exists>obj d'. create gen d bp c = Inr (obj, d')
           \<and> (\<forall>r\<in>set (orders d). cart r = cart_id c \<and> billing_profile r \<noteq> bp \<longrightarrow>
                 r\<lparr>active := False\<rparr> \<in> set (orders d') \<and> r\<lparr>active := False\<rparr> \<noteq> to_row obj)
           \<and> (\<forall>r\<in>set (orders d'). cart r = cart_id c \<and> billing_profile r \<noteq> bp \<longrightarrow> \<not> active r)))"
proof (intro conjI impI)
  assume g: "get_cart d instance \<noteq> None"
  have "pre_save_writes gen d instance
      = (fst (pre_save_writes gen d instance), snd (pre_save_writes gen d instance))"
    by simp
  also have "\<dots> = (instance\<lparr>order_id := (if order_id instance = [] then gen d instance else order_id instance)\<rparr>,
       d\<lparr>orders := map (deactivate instance) (orders d)\<rparr>)"
    by (simp only: pre_save_instance pre_save_orders)
  finally have "pre_save_writes gen d instance =
      (instance\<lparr>order_id := (if order_id instance = [] then gen d instance else order_id instance)\<rparr>,
       d\<lparr>orders := map (\<lambda>r. if cart r = cart instance \<and> billing_profile r \<noteq> billing_profile instance
                              then r\<lparr>active := False\<rparr> else r) (orders d)\<rparr>)"
    by (simp add: deactivate_def [abs_def] stale_def)
  then show "order_id_pre_save_receiver gen d instance =
        Inr (instance\<lparr>order_id := (if order_id instance = [] then gen d instance else order_id instance)\<rparr>,
             d\<lparr>orders := map (\<lambda>r. if cart r = cart instance \<and> billing_profile r \<noteq> billing_profile instance
                                    then r\<lparr>active := False\<rparr> else r) (orders d)\<rparr>)"
    by (simp add: pre_save_eq g)
next
  assume "get_cart d instance = None"
  then show "order_id_pre_save_receiver gen d instance = Inl DoesNotExist"
    by (simp add: pre_save_eq)
next
  assume c: "find (\<lambda>x. cart_id x = cart_id c) (carts d) = Some c"
  let ?n = "new_order bp c"
  have gc: "get_cart d ?n = Some c" using c by (simp add: get_cart_def new_order_def)
  then have "get_cart d ?n \<noteq> None" by simp
  from save_succeeds[OF this, of gen] obtain obj d' where s: "save gen d ?n = Inr (obj, d')"
    by blast
  from save_Inr[OF s] have sv: "saved gen d ?n obj d'" by simp
  have pk: "pk obj = Some (next_pk (orders d))"
    using savedD(2)[OF sv] by (simp add: new_order_def)
  have stale_n: "stale ?n r \<longleftrightarrow> cart r = cart_id c \<and> billing_profile r \<noteq> bp" for r
    by (simp add: stale_def new_order_def)
  have 1: "\<forall>r\<in>set (orders d). cart r = cart_id c \<and> billing_profile r \<noteq> bp \<longrightarrow>
                 r\<lparr>active := False\<rparr> \<in> set (orders d') \<and> r\<lparr>active := False\<rparr> \<noteq> to_row obj"
  proof (intro ballI impI)
    fix r assume r: "r \<in> set (orders d)" and "cart r = cart_id c \<and> billing_profile r \<noteq> bp"
    then have st: "stale ?n r" by (simp add: stale_n)
    have p: "pk r \<noteq> pk obj" using next_pk_fresh[OF r] pk by simp
    have "pk (r\<lparr>active := False\<rparr>) \<noteq> pk (to_row obj)" using p by simp
    then have "r\<lparr>active := False\<rparr> \<noteq> to_row obj" by metis
    with saved_deactivates[OF sv r p st]
    show "r\<lparr>active := False\<rparr> \<in> set (orders d') \<and> r\<lparr>active := False\<rparr> \<noteq> to_row obj" by simp
  qed
  have 2: "\<forall>r\<in>set (orders d'). cart r = cart_id c \<and> billing_profile r \<noteq> bp \<longrightarrow> \<not> active r"
    using saved_siblings[OF sv] by (simp add: stale_n)
  show "\<exists>obj d'. create gen d bp c = Inr (obj, d')
           \<and> (\<forall>r\<in>set (orders d). cart r = cart_id c \<and> billing_profile r \<noteq> bp \<longrightarrow>
                 r\<lparr>active := False\<rparr> \<in> set (orders d') \<and> r\<lparr>active := False\<rparr> \<noteq> to_row obj)
           \<and> (\<forall>r\<in>set (orders d'). cart r = cart_id c \<and> billing_profile r \<noteq> bp \<longrightarrow> \<not> active r)"
    using s 1 2 unfolding create_def by blast
qed

theorem pre_save_stale_inactive_witness:
  "(get_cart \<lparr>carts = [cart_digital], orders = [order_digital]\<rparr> (new_order (Some 2) cart_digital) \<noteq> None
    \<and> order_id_pre_save_receiver example_gen \<lparr>carts = [cart_digital], orders = [order_digital]\<rparr>
          (new_order (Some 2) cart_digital)
        = Inr ((new_order (Some 2) cart_digital)\<lparr>order_id := ''id1''\<rparr>,
               \<lparr>carts = [cart_digital], orders = [order_digital\<lparr>active := False\<rparr>]\<rparr>))
   \<and> (get_cart \<lparr>carts = [cart_digital], orders = [order_digital]\<rparr>
         ((new_order (Some 2) cart_digital)\<lparr>cart := 9\<rparr>) = None
      \<and> order_id_pre_save_receiver example_gen \<lparr>carts = [cart_digital], orders = [order_digital]\<rparr>
            ((new_order (Some 2) cart_digital)\<lparr>cart := 9\<rparr>) = Inl DoesNotExist)
   \<and> find (\<lambda>x. cart_id x = cart_id cart_digital) (carts \<lparr>carts = [cart_digital], orders = [order_digital]\<rparr>)
       = Some cart_digital
   \<and> (order_digital \<in> set (orders \<lparr>carts = [cart_digital], orders = [order_digital]\<rparr>)
      \<and> cart order_digital = cart_id cart_digital \<and> billing_profile order_digital \<noteq> Some 2
      \<and> active order_digital)
   \<and> (\<exists>obj d'. create example_gen \<lparr>carts = [cart_digital], orders = [order_digital]\<rparr> (Some 2) cart_digital
                   = Inr (obj, d')
          \<and> order_digital\<lparr>active := False\<rparr> \<in> set (orders d')
          \<and> order_digital\<lparr>active := False\<rparr> \<noteq> to_row obj)"
  using pre_save_stale_inactive[of "\<lparr>carts = [cart_digital], orders = [order_digital]\<rparr>"
      "new_order (Some 2) cart_digital" example_gen cart_digital "Some 2"]
    pre_save_stale_inactive[of "\<lparr>carts = [cart_digital], orders = [order_digital]\<rparr>"
      "(new_order (Some 2) cart_digital)\<lparr>cart := 9\<rparr>" example_gen cart_digital "Some 2"]
  by (simp add: get_cart_def example_gen_def cart_digital_def order_digital_def new_order_def digit_def)
    (elim conjE exE, intro exI conjI, assumption+)

lemma deactivate_order_id [simp]: "order_id (deactivate a r) = order_id r"
  by (simp add: deactivate_def)

lemma get_cart_Some_cong: "get_cart d a \<noteq> None \<Longrightarrow> cart b = cart a \<Longrightarrow> get_cart d b \<noteq> None"
  by (simp add: get_cart_def)

lemma update_total_saved:
  assumes "get_cart d self \<noteq> None"
  shows "\<exists>t self' d'. update_total gen d self = Inr (t, self', d')
           \<and> saved gen d (recomputed (the (get_cart d self)) self) self' d'"
proof -
  from assms obtain c where c: "get_cart d self = Some c" by auto
  from update_total_Inr[OF c, of gen] show ?thesis using c by auto
qed

text \<open>
  C10. Every save of an order, the first or a later one, also the save inside
  \<open>update_total\<close> and the one inside \<open>mark_paid\<close>, leaves every stored order of the same
  cart with another billing profile inactive. (The order's cart exists, so the save
  returns.)
\<close>

theorem every_save_deactivates:
  "get_cart d self \<noteq> None \<longrightarrow>
     (\<exists>self' d'. save gen d self = Inr (self', d')
        \<and> (\<forall>r\<in>set (orders d'). cart r = cart self \<and> billing_profile r \<noteq> billing_profile self
               \<longrightarrow> \<not> active r))
   \<and> (\<exists>t self' d'. update_total gen d self = Inr (t, self', d')
        \<and> (\<forall>r\<in>set (orders d'). cart r = cart self \<and> billing_profile r \<noteq> billing_profile self
               \<longrightarrow> \<not> active r))
   \<and> (status self \<noteq> ''paid'' \<and> check_done d self = Inr True \<longrightarrow>
        (\<exists>s self' d'. mark_paid gen d self = Inr (s, self', d')
           \<and> (\<forall>r\<in>set (orders d'). cart r = cart self \<and> billing_profile r \<noteq> billing_profile self
                  \<longrightarrow> \<not> active r)))"
proof (intro impI conjI)
  assume c: "get_cart d self \<noteq> None"
  then have "get_cart d self \<noteq> None" by simp
  from save_succeeds[OF this, of gen] obtain self' d' where s: "save gen d self = Inr (self', d')"
    by blast
  from save_Inr[OF s] have sv: "saved gen d self self' d'" by simp
  have "\<forall>r\<in>set (orders d'). cart r = cart self \<and> billing_profile r \<noteq> billing_profile self
               \<longrightarrow> \<not> active r"
    using saved_siblings[OF sv] by (simp add: stale_def)
  with s show "\<exists>self' d'. save gen d self = Inr (self', d')
        \<and> (\<forall>r\<in>set (orders d'). cart r = cart self \<and> billing_profile r \<noteq> billing_profile self
               \<longrightarrow> \<not> active r)" by blast
next
  assume c: "get_cart d self \<noteq> None"
  from update_total_saved[OF c, of gen] obtain t self' d'
    where u: "update_total gen d self = Inr (t, self', d')"
      and sv: "saved gen d (recomputed (the (get_cart d self)) self) self' d'" by blast
  have "\<forall>r\<in>set (orders d'). cart r = cart self \<and> billing_profile r \<noteq> billing_profile self
               \<longrightarrow> \<not> active r"
    using saved_siblings[OF sv] by (simp add: stale_def)
  with u show "\<exists>t self' d'. update_total gen d self = Inr (t, self', d')
        \<and> (\<forall>r\<in>set (orders d'). cart r = cart self \<and> billing_profile r \<noteq> billing_profile self
               \<longrightarrow> \<not> active r)" by blast
next
  assume "status self \<noteq> ''paid'' \<and> check_done d self = Inr True"
  then have a: "status self \<noteq> ''paid''" "check_done d self = Inr True" by simp_all
  from mark_paid_done[OF a, of gen] obtain self' d'
    where m: "mark_paid gen d self = Inr (''paid'', self', d')"
      and sv: "saved gen d (self\<lparr>status := ''paid''\<rparr>) self' d'" by blast
  have "\<forall>r\<in>set (orders d'). cart r = cart self \<and> billing_profile r \<noteq> billing_profile self
               \<longrightarrow> \<not> active r"
    using saved_siblings[OF sv] by (simp add: stale_def)
  with m show "\<exists>s self' d'. mark_paid gen d self = Inr (s, self', d')
           \<and> (\<forall>r\<in>set (orders d'). cart r = cart self \<and> billing_profile r \<noteq> billing_profile self
                  \<longrightarrow> \<not> active r)" by blast
qed

theorem every_save_deactivates_witness:
  "get_cart \<lparr>carts = [cart_digital],
             orders = [order_digital,
                       order_digital\<lparr>pk := Some 2, order_id := ''id1'', billing_profile := Some 2\<rparr>]\<rparr>
     order_digital \<noteq> None
   \<and> (status order_digital \<noteq> ''paid''
      \<and> check_done \<lparr>carts = [cart_digital],
             orders = [order_digital,
                       order_digital\<lparr>pk := Some 2, order_id := ''id1'', billing_profile := Some 2\<rparr>]\<rparr>
           order_digital = Inr True)
   \<and> save example_gen \<lparr>carts = [cart_digital],
             orders = [order_digital,
                       order_digital\<lparr>pk := Some 2, order_id := ''id1'', billing_profile := Some 2\<rparr>]\<rparr>
        order_digital
      = Inr (order_digital, \<lparr>carts = [cart_digital],
             orders = [order_digital,
                       order_digital\<lparr>pk := Some 2, order_id := ''id1'', billing_profile := Some 2,
                                     active := False\<rparr>]\<rparr>)"
  using every_save_deactivates[of "\<lparr>carts = [cart_digital],
             orders = [order_digital,
                       order_digital\<lparr>pk := Some 2, order_id := ''id1'', billing_profile := Some 2\<rparr>]\<rparr>"
      order_digital example_gen]
  by (simp add: check_done_def get_cart_def cart_digital_def order_digital_def save_unfold save_once_def
      pre_save_writes_def write_row_def row_exists_def stale_def to_row_def Let_def)

text \<open>
  C9. A save (the order's cart exists, so it returns) gives an order without identifier
  the generated one, non-empty when the generator's is, keeps the identifier of an order
  that has one, and writes it to the order's row; every other row keeps its identifier.
  \<open>update_total\<close> and \<open>mark_paid\<close> keep a set identifier too.
\<close>

theorem order_id_assigned_once:
  "get_cart d self \<noteq> None \<longrightarrow>
     (\<exists>self' d'. save gen d self = Inr (self', d')
        \<and> (order_id self = [] \<and> gen d self \<noteq> [] \<longrightarrow> order_id self' = gen d self \<and> order_id self' \<noteq> [])
        \<and> (order_id self \<noteq> [] \<longrightarrow> order_id self' = order_id self)
        \<and> to_row self' \<in> set (orders d') \<and> order_id (to_row self') = order_id self'
        \<and> (\<forall>r'\<in>set (orders d'). r' \<noteq> to_row self' \<longrightarrow>
              (\<exists>r\<in>set (orders d). pk r = pk r' \<and> order_id r = order_id r')))
   \<and> (order_id self \<noteq> [] \<longrightarrow>
        (\<exists>t self' d'. update_total gen d self = Inr (t, self', d') \<and> order_id self' = order_id self
            \<and> to_row self' \<in> set (orders d') \<and> order_id (to_row self') = order_id self)
        \<and> (\<forall>s self' d'. mark_paid gen d self = Inr (s, self', d') \<longrightarrow> order_id self' = order_id self))"
proof (intro impI conjI allI)
  assume c: "get_cart d self \<noteq> None"
  then have "get_cart d self \<noteq> None" by simp
  from save_succeeds[OF this, of gen] obtain self' d' where s: "save gen d self = Inr (self', d')"
    by blast
  from save_Inr[OF s] have sv: "saved gen d self self' d'" by simp
  note oid = savedD(3)[OF sv]
  have 1: "order_id self = [] \<and> gen d self \<noteq> [] \<longrightarrow> order_id self' = gen d self \<and> order_id self' \<noteq> []"
    using oid by auto
  have 2: "order_id self \<noteq> [] \<longrightarrow> order_id self' = order_id self"
    using oid by auto
  have 3: "\<forall>r'\<in>set (orders d'). r' \<noteq> to_row self' \<longrightarrow>
              (\<exists>r\<in>set (orders d). pk r = pk r' \<and> order_id r = order_id r')"
  proof (intro ballI impI)
    fix r' assume "r' \<in> set (orders d')" "r' \<noteq> to_row self'"
    with savedD(6)[OF sv] obtain r where "r \<in> set (orders d)" "r' = deactivate self r" by blast
    then show "\<exists>r\<in>set (orders d). pk r = pk r' \<and> order_id r = order_id r'" by auto
  qed
  show "\<exists>self' d'. save gen d self = Inr (self', d')
        \<and> (order_id self = [] \<and> gen d self \<noteq> [] \<longrightarrow> order_id self' = gen d self \<and> order_id self' \<noteq> [])
        \<and> (order_id self \<noteq> [] \<longrightarrow> order_id self' = order_id self)
        \<and> to_row self' \<in> set (orders d') \<and> order_id (to_row self') = order_id self'
        \<and> (\<forall>r'\<in>set (orders d'). r' \<noteq> to_row self' \<longrightarrow>
              (\<exists>r\<in>set (orders d). pk r = pk r' \<and> order_id r = order_id r'))"
    using s 1 2 3 savedD(5)[OF sv] by (intro exI[of _ self'] exI[of _ d']) simp
next
  assume c: "get_cart d self \<noteq> None" and o: "order_id self \<noteq> []"
  from update_total_saved[OF c, of gen] obtain t self' d'
    where u: "update_total gen d self = Inr (t, self', d')"
      and sv: "saved gen d (recomputed (the (get_cart d self)) self) self' d'" by blast
  have "order_id self' = order_id self" using savedD(3)[OF sv] o by simp
  with u savedD(5)[OF sv]
  show "\<exists>t self' d'. update_total gen d self = Inr (t, self', d') \<and> order_id self' = order_id self
            \<and> to_row self' \<in> set (orders d') \<and> order_id (to_row self') = order_id self"
    by (intro exI[of _ t] exI[of _ self'] exI[of _ d']) simp
next
  fix s self' d'
  assume o: "order_id self \<noteq> []" and m: "mark_paid gen d self = Inr (s, self', d')"
  show "order_id self' = order_id self"
  proof (cases "status self \<noteq> ''paid'' \<and> check_done d self = Inr True")
    case True
    then obtain self1 d1 where s1: "save gen d (self\<lparr>status := ''paid''\<rparr>) = Inr (self1, d1)"
      and eq: "self' = self1"
      using m by (auto simp: mark_paid_def split: sum.splits)
    from save_Inr[OF s1] have "saved gen d (self\<lparr>status := ''paid''\<rparr>) self1 d1" by simp
    from savedD(3)[OF this] show ?thesis using o eq by simp
  next
    case False
    with m show ?thesis by (auto simp: mark_paid_def split: if_splits sum.splits)
  qed
qed

theorem order_id_assigned_once_witness:
  "get_cart \<lparr>carts = [cart_digital], orders = []\<rparr> (new_order (Some 1) cart_digital) \<noteq> None
   \<and> (order_id (new_order (Some 1) cart_digital) = []
      \<and> example_gen \<lparr>carts = [cart_digital], orders = []\<rparr> (new_order (Some 1) cart_digital) \<noteq> [])
   \<and> (\<exists>self' d'. save example_gen \<lparr>carts = [cart_digital], orders = []\<rparr> (new_order (Some 1) cart_digital)
                    = Inr (self', d')
          \<and> order_id self' = ''id0'' \<and> to_row self' \<in> set (orders d'))
   \<and> get_cart example_db order_digital \<noteq> None \<and> order_id order_digital \<noteq> []
   \<and> (\<exists>t self' d'. update_total example_gen example_db order_digital = Inr (t, self', d')
          \<and> order_id self' = ''id0'')"
  using order_id_assigned_once[of "\<lparr>carts = [cart_digital], orders = []\<rparr>" "new_order (Some 1) cart_digital"
      example_gen]
    order_id_assigned_once[of example_db order_digital example_gen]
  by (simp add: get_cart_def example_defs new_order_def digit_def)
    (elim conjE exE, intro exI conjI, assumption+)

section \<open>Totals\<close>

lemma total_to_row [simp]: "total (to_row a) = Num (Dec (total_to_db (total a)))"
  by (simp add: to_row_def)

lemma total_recomputed:
  "total (recomputed c a) = Str2f (format_2f (fsum [to_float (cart_total c), to_float (shipping_total a)]))"
  by (simp add: recomputed_def)

lemma update_total_result:
  assumes c: "get_cart d self = Some c" and t: "total (recomputed c self) = Str2f n"
  shows "\<exists>self' d'. update_total gen d self = Inr (Str2f n, self', d') \<and> total self' = Str2f n
           \<and> to_row self' \<in> set (orders d') \<and> total (to_row self') = Num (Dec n)"
proof -
  from update_total_Inr[OF c, of gen] obtain self' d'
    where u: "update_total gen d self = Inr (total (recomputed c self), self', d')"
      and sv: "saved gen d (recomputed c self) self' d'"
      and ts: "total self' = total (recomputed c self)" by blast
  show ?thesis
    using u ts savedD(5)[OF sv] unfolding t by (intro exI[of _ self'] exI[of _ d']) simp
qed

lemma save_new_result:
  assumes n: "\<not> row_exists d self" and c: "get_cart d self = Some c"
    and t: "total (recomputed c self) = Str2f n"
  shows "\<exists>self' d'. save gen d self = Inr (self', d') \<and> total self' = Str2f n
           \<and> to_row self' \<in> set (orders d') \<and> total (to_row self') = Num (Dec n)"
proof -
  have "get_cart d self \<noteq> None" using c by simp
  from save_succeeds[OF this, of gen] obtain self' d' where s: "save gen d self = Inr (self', d')"
    by blast
  from save_Inr[OF s] have sv: "saved gen d self self' d'"
    and ts: "total self' = total (recomputed c self)" using n c by simp_all
  show ?thesis
    using s ts savedD(5)[OF sv] unfolding t by (intro exI[of _ self'] exI[of _ d']) simp
qed

text \<open>
  C1. \<open>update_total\<close> adds in binary floating point: \<open>math.fsum\<close> converts the cart's
  total and the shipping total to floats, and \<open>format\<close> prints the float sum with two
  places. For amounts of two places up to \<open>10^13\<close> (\<open>10^15\<close> cents) the text is the exact
  sum: \<open>update_total\<close> sets the order's total to it, returns it, and the saved row stores
  it as a decimal.
\<close>

theorem update_total_exact:
  "get_cart d self = Some c
   \<and> value_of (cart_total c) = of_int a / 100 \<and> value_of (shipping_total self) = of_int b / 100
   \<and> \<bar>a\<bar> \<le> 10 ^ 15 \<and> \<bar>b\<bar> \<le> 10 ^ 15 \<longrightarrow>
     (\<exists>self' d'. update_total gen d self = Inr (Str2f (a + b), self', d')
        \<and> total self' = Str2f (a + b)
        \<and> to_row self' \<in> set (orders d') \<and> total (to_row self') = Num (Dec (a + b)))"
proof
  assume h: "get_cart d self = Some c
   \<and> value_of (cart_total c) = of_int a / 100 \<and> value_of (shipping_total self) = of_int b / 100
   \<and> \<bar>a\<bar> \<le> 10 ^ 15 \<and> \<bar>b\<bar> \<le> 10 ^ 15"
  then have c: "get_cart d self = Some c" by simp
  have "total (recomputed c self) = Str2f (a + b)"
    using h by (intro recomputed_exact) simp_all
  from update_total_result[OF c this]
  show "\<exists>self' d'. update_total gen d self = Inr (Str2f (a + b), self', d')
        \<and> total self' = Str2f (a + b)
        \<and> to_row self' \<in> set (orders d') \<and> total (to_row self') = Num (Dec (a + b))" .
qed

theorem update_total_exact_witness:
  "(get_cart example_db order_digital = Some cart_digital
    \<and> value_of (cart_total cart_digital) = of_int 10000 / 100
    \<and> value_of (shipping_total order_digital) = of_int 5000 / 100
    \<and> \<bar>10000 :: int\<bar> \<le> 10 ^ 15 \<and> \<bar>5000 :: int\<bar> \<le> 10 ^ 15)
   \<and> (\<exists>self' d'. update_total example_gen example_db order_digital = Inr (Str2f 15000, self', d')
          \<and> total self' = Str2f 15000
          \<and> to_row self' \<in> set (orders d') \<and> total (to_row self') = Num (Dec 15000))"
  using update_total_exact[of example_db order_digital cart_digital 10000 5000 example_gen]
  by (simp add: get_cart_def example_defs)

text \<open>
  Beyond \<open>2^53\<close> the float sum is not the exact sum: with a cart total of
  \<open>9007199254740993.00\<close> and a shipping total of \<open>50.00\<close>, \<open>update_total\<close> returns
  \<open>'9007199254741042.00'\<close>, one unit less than the sum.
\<close>

theorem update_total_inexact:
  "update_total example_gen
     \<lparr>carts = [\<lparr>cart_id = 1, cart_total = Dec 900719925474099300, is_digital = True\<rparr>],
      orders = [order_digital]\<rparr> order_digital
   = Inr (Str2f 900719925474104200, order_digital\<lparr>total := Str2f 900719925474104200\<rparr>,
          \<lparr>carts = [\<lparr>cart_id = 1, cart_total = Dec 900719925474099300, is_digital = True\<rparr>],
           orders = [order_digital\<lparr>total := Num (Dec 900719925474104200)\<rparr>]\<rparr>)
   \<and> Str2f 900719925474104200 \<noteq> Str2f (900719925474099300 + 5000)
   \<and> show_2f 900719925474104200 = ''9007199254741042.00''"
proof (intro conjI)
  show "update_total example_gen
     \<lparr>carts = [\<lparr>cart_id = 1, cart_total = Dec 900719925474099300, is_digital = True\<rparr>],
      orders = [order_digital]\<rparr> order_digital
   = Inr (Str2f 900719925474104200, order_digital\<lparr>total := Str2f 900719925474104200\<rparr>,
          \<lparr>carts = [\<lparr>cart_id = 1, cart_total = Dec 900719925474099300, is_digital = True\<rparr>],
           orders = [order_digital\<lparr>total := Num (Dec 900719925474104200)\<rparr>]\<rparr>)"
    by code_simp
  show "Str2f 900719925474104200 \<noteq> Str2f (900719925474099300 + 5000)" by simp
  show "show_2f 900719925474104200 = ''9007199254741042.00''"
    by (simp add: show_2f_def digit_def)
qed

text \<open>
  C7. The save of an order that has no row yet (the first save: it creates the row)
  recomputes the total from the stored cart: the order returned and its row carry the sum
  of the cart's total and the order's shipping total, as \<open>update_total\<close> computes it. A
  save that finds the row (the order's cart existing) leaves the total as it is. For a
  stored cart of \<open>100.00\<close> and the default shipping total, the created order's total is
  the text \<open>'150.00'\<close>.
\<close>

theorem created_order_total:
  "(\<not> row_exists d self \<and> get_cart d self = Some c \<longrightarrow>
      (\<exists>self' d'. save gen d self = Inr (self', d')
         \<and> total self' = Str2f (format_2f (fsum [to_float (cart_total c), to_float (shipping_total self)]))
         \<and> to_row self' \<in> set (orders d')
         \<and> total (to_row self')
             = Num (Dec (format_2f (fsum [to_float (cart_total c), to_float (shipping_total self)])))))
   \<and> (row_exists d self \<and> get_cart d self \<noteq> None \<longrightarrow>
        (\<exists>self' d'. save gen d self = Inr (self', d') \<and> total self' = total self))
   \<and> (find (\<lambda>x. cart_id x = cart_id c) (carts d) = Some c \<and> cart_total c = Dec 10000 \<longrightarrow>
        (\<exists>obj d'. create gen d bp c = Inr (obj, d') \<and> total obj = Str2f 15000
           \<and> to_row obj \<in> set (orders d') \<and> total (to_row obj) = Num (Dec 15000)))
   \<and> show_2f 15000 = ''150.00''"
proof (intro conjI impI)
  assume "\<not> row_exists d self \<and> get_cart d self = Some c"
  then have n: "\<not> row_exists d self" and c: "get_cart d self = Some c" by simp_all
  from save_new_result[OF n c total_recomputed]
  show "\<exists>self' d'. save gen d self = Inr (self', d')
         \<and> total self' = Str2f (format_2f (fsum [to_float (cart_total c), to_float (shipping_total self)]))
         \<and> to_row self' \<in> set (orders d')
         \<and> total (to_row self')
             = Num (Dec (format_2f (fsum [to_float (cart_total c), to_float (shipping_total self)])))" .
next
  assume "row_exists d self \<and> get_cart d self \<noteq> None"
  then have r: "row_exists d self" and g: "get_cart d self \<noteq> None" by simp_all
  from save_succeeds[OF g, of gen] obtain self' d' where s: "save gen d self = Inr (self', d')"
    by blast
  from save_Inr[OF s] r have "total self' = total self" by simp
  with s show "\<exists>self' d'. save gen d self = Inr (self', d') \<and> total self' = total self" by blast
next
  assume "find (\<lambda>x. cart_id x = cart_id c) (carts d) = Some c \<and> cart_total c = Dec 10000"
  then have f: "find (\<lambda>x. cart_id x = cart_id c) (carts d) = Some c" and ct: "cart_total c = Dec 10000"
    by simp_all
  let ?n = "new_order bp c"
  have gc: "get_cart d ?n = Some c" using f by (simp add: get_cart_def new_order_def)
  have n: "\<not> row_exists d ?n" by (simp add: row_exists_def new_order_def)
  have "total (recomputed c ?n) = Str2f (10000 + 5000)"
    by (rule recomputed_exact) (simp_all add: ct new_order_def)
  then have t: "total (recomputed c ?n) = Str2f 15000" by simp
  from save_new_result[OF n gc t, of gen]
  show "\<exists>obj d'. create gen d bp c = Inr (obj, d') \<and> total obj = Str2f 15000
           \<and> to_row obj \<in> set (orders d') \<and> total (to_row obj) = Num (Dec 15000)"
    unfolding create_def .
next
  show "show_2f 15000 = ''150.00''" by (simp add: show_2f_def digit_def)
qed

theorem created_order_total_witness:
  "(\<not> row_exists \<lparr>carts = [cart_digital], orders = []\<rparr> (new_order (Some 1) cart_digital)
    \<and> get_cart \<lparr>carts = [cart_digital], orders = []\<rparr> (new_order (Some 1) cart_digital) = Some cart_digital)
   \<and> (row_exists example_db order_digital \<and> get_cart example_db order_digital \<noteq> None)
   \<and> (find (\<lambda>x. cart_id x = cart_id cart_digital) (carts \<lparr>carts = [cart_digital], orders = []\<rparr>)
        = Some cart_digital \<and> cart_total cart_digital = Dec 10000)
   \<and> (\<exists>obj d'. create example_gen \<lparr>carts = [cart_digital], orders = []\<rparr> (Some 1) cart_digital = Inr (obj, d')
          \<and> total obj = Str2f 15000 \<and> to_row obj \<in> set (orders d')
          \<and> total (to_row obj) = Num (Dec 15000))
   \<and> (\<exists>self' d'. save example_gen example_db order_digital = Inr (self', d')
          \<and> total self' = Num (Dec 15000))"
  using created_order_total[of "\<lparr>carts = [cart_digital], orders = []\<rparr>" "new_order (Some 1) cart_digital"
      cart_digital example_gen "Some 1"]
    created_order_total[of example_db order_digital cart_digital example_gen "Some 1"]
  by (simp add: get_cart_def row_exists_def example_defs new_order_def)

section \<open>The manager and the cart's signal\<close>

lemma create_result:
  assumes f: "find (\<lambda>x. cart_id x = cart_id c) (carts d) = Some c"
  shows "\<exists>obj d'. create gen d bp c = Inr (obj, d') \<and> saved gen d (new_order bp c) obj d'"
proof -
  have "get_cart d (new_order bp c) = Some c" using f by (simp add: get_cart_def new_order_def)
  then have "get_cart d (new_order bp c) \<noteq> None" by simp
  from save_succeeds[OF this, of gen] obtain obj d'
    where s: "save gen d (new_order bp c) = Inr (obj, d')" by blast
  from save_Inr[OF s] s show ?thesis unfolding create_def by blast
qed

text \<open>
  C5. When exactly one stored order has this billing profile and cart, is active and has
  status \<open>'created'\<close>, \<open>get_or_new\<close> returns it with \<open>False\<close> and writes nothing. With no
  such order or several (the cart being a stored one), it creates an order: the order
  returned, with \<open>True\<close>, has this billing profile and cart, status \<open>'created'\<close>, is active,
  has a key no stored order had, and its row is stored.
\<close>

theorem get_or_new_cases:
  "(filter (\<lambda>r. billing_profile r = bp \<and> cart r = cart_id c \<and> active r \<and> status r = ''created'')
      (orders d) = [r]
     \<longrightarrow> get_or_new gen d bp c = Inr (r, False, d))
   \<and> (length (filter (\<lambda>r. billing_profile r = bp \<and> cart r = cart_id c \<and> active r \<and> status r = ''created'')
          (orders d)) \<noteq> 1
       \<and> find (\<lambda>x. cart_id x = cart_id c) (carts d) = Some c \<longrightarrow>
        (\<exists>obj d'. get_or_new gen d bp c = Inr (obj, True, d')
           \<and> billing_profile obj = bp \<and> cart obj = cart_id c \<and> status obj = ''created'' \<and> active obj
           \<and> pk obj = Some (next_pk (orders d)) \<and> (\<forall>r\<in>set (orders d). pk r \<noteq> pk obj)
           \<and> to_row obj \<in> set (orders d')))"
proof (intro conjI impI)
  assume "filter (\<lambda>r. billing_profile r = bp \<and> cart r = cart_id c \<and> active r \<and> status r = ''created'')
      (orders d) = [r]"
  then show "get_or_new gen d bp c = Inr (r, False, d)" by (simp add: get_or_new_def)
next
  assume h: "length (filter (\<lambda>r. billing_profile r = bp \<and> cart r = cart_id c \<and> active r \<and> status r = ''created'')
          (orders d)) \<noteq> 1
       \<and> find (\<lambda>x. cart_id x = cart_id c) (carts d) = Some c"
  then have f: "find (\<lambda>x. cart_id x = cart_id c) (carts d) = Some c" by simp
  from create_result[OF f, of gen bp] obtain obj d'
    where s: "create gen d bp c = Inr (obj, d')" and sv: "saved gen d (new_order bp c) obj d'"
    by blast
  note sf = same_fieldsD[OF savedD(1)[OF sv]]
  have pk: "pk obj = Some (next_pk (orders d))" using savedD(2)[OF sv] by (simp add: new_order_def)
  have fresh: "\<forall>r\<in>set (orders d). pk r \<noteq> pk obj" using next_pk_fresh pk by auto
  have g: "get_or_new gen d bp c = Inr (obj, True, d')" using h s by (simp add: get_or_new_def)
  show "\<exists>obj d'. get_or_new gen d bp c = Inr (obj, True, d')
           \<and> billing_profile obj = bp \<and> cart obj = cart_id c \<and> status obj = ''created'' \<and> active obj
           \<and> pk obj = Some (next_pk (orders d)) \<and> (\<forall>r\<in>set (orders d). pk r \<noteq> pk obj)
           \<and> to_row obj \<in> set (orders d')"
    using g sf pk fresh savedD(5)[OF sv]
    by (intro exI[of _ obj] exI[of _ d']) (simp add: new_order_def)
qed

theorem get_or_new_cases_witness:
  "(filter (\<lambda>r. billing_profile r = Some 1 \<and> cart r = cart_id cart_digital \<and> active r \<and> status r = ''created'')
      (orders example_db) = [order_digital]
    \<and> get_or_new example_gen example_db (Some 1) cart_digital = Inr (order_digital, False, example_db))
   \<and> ((length (filter (\<lambda>r. billing_profile r = Some 2 \<and> cart r = cart_id cart_digital \<and> active r
                            \<and> status r = ''created'') (orders example_db)) \<noteq> 1
       \<and> find (\<lambda>x. cart_id x = cart_id cart_digital) (carts example_db) = Some cart_digital)
      \<and> (\<exists>obj d'. get_or_new example_gen example_db (Some 2) cart_digital = Inr (obj, True, d')
             \<and> billing_profile obj = Some 2 \<and> cart obj = cart_id cart_digital
             \<and> pk obj = Some 3 \<and> to_row obj \<in> set (orders d')))"
  using get_or_new_cases[of "Some 1" cart_digital example_db order_digital example_gen]
    get_or_new_cases[of "Some 2" cart_digital example_db order_digital example_gen]
  by (simp add: example_defs next_pk_def eval_nat_numeral)
    (elim conjE exE, intro exI conjI, assumption+)

text \<open>
  C6. \<open>cart_total_post_save_receiver\<close> for a cart that was not just created, the cart's
  row being stored: when exactly one stored order is on that cart, it recomputes that
  order's total (the order's row then stores the sum of the cart's total and the order's
  shipping total, as \<open>update_total\<close> computes it); with no order on the cart or several,
  it returns with the tables unchanged, as it does for a cart just created.
\<close>

theorem cart_saved_recomputes:
  "(filter (\<lambda>r. cart r = cart_id instance) (orders d) = [r] \<and> pk r \<noteq> None
    \<and> find (\<lambda>x. cart_id x = cart_id instance) (carts d) = Some instance \<longrightarrow>
      (\<exists>self' d'. cart_total_post_save_receiver gen d instance False = Inr d'
          \<and> to_row self' \<in> set (orders d') \<and> pk self' = pk r \<and> cart self' = cart_id instance
          \<and> total (to_row self')
              = Num (Dec (format_2f (fsum [to_float (cart_total instance), to_float (shipping_total r)])))))
   \<and> (length (filter (\<lambda>r. cart r = cart_id instance) (orders d)) \<noteq> 1 \<longrightarrow>
        cart_total_post_save_receiver gen d instance False = Inr d)
   \<and> cart_total_post_save_receiver gen d instance True = Inr d"
proof (intro conjI impI)
  assume h: "filter (\<lambda>r. cart r = cart_id instance) (orders d) = [r] \<and> pk r \<noteq> None
    \<and> find (\<lambda>x. cart_id x = cart_id instance) (carts d) = Some instance"
  then have q: "filter (\<lambda>r. cart r = cart_id instance) (orders d) = [r]" and p: "pk r \<noteq> None"
    and f: "find (\<lambda>x. cart_id x = cart_id instance) (carts d) = Some instance" by simp_all
  have "r \<in> set (filter (\<lambda>r. cart r = cart_id instance) (orders d))" unfolding q by simp
  then have cr: "cart r = cart_id instance" by simp
  have gc: "get_cart d r = Some instance" using f cr by (simp add: get_cart_def)
  from update_total_Inr[OF gc, of gen] obtain self' d'
    where u: "update_total gen d r = Inr (total (recomputed instance r), self', d')"
      and sv: "saved gen d (recomputed instance r) self' d'"
      and ts: "total self' = total (recomputed instance r)" by blast
  have 1: "cart_total_post_save_receiver gen d instance False = Inr d'"
    using q u by (simp add: cart_total_post_save_receiver_def)
  have 2: "pk self' = pk r" using savedD(2)[OF sv] p by auto
  have 3: "cart self' = cart_id instance" using same_fieldsD(4)[OF savedD(1)[OF sv]] cr by simp
  have 4: "total (to_row self')
              = Num (Dec (format_2f (fsum [to_float (cart_total instance), to_float (shipping_total r)])))"
    using ts by (simp add: total_recomputed)
  show "\<exists>self' d'. cart_total_post_save_receiver gen d instance False = Inr d'
          \<and> to_row self' \<in> set (orders d') \<and> pk self' = pk r \<and> cart self' = cart_id instance
          \<and> total (to_row self')
              = Num (Dec (format_2f (fsum [to_float (cart_total instance), to_float (shipping_total r)])))"
    using 1 2 3 4 savedD(5)[OF sv] by (intro exI[of _ self'] exI[of _ d']) simp
next
  assume "length (filter (\<lambda>r. cart r = cart_id instance) (orders d)) \<noteq> 1"
  then show "cart_total_post_save_receiver gen d instance False = Inr d"
    by (simp add: cart_total_post_save_receiver_def)
next
  show "cart_total_post_save_receiver gen d instance True = Inr d"
    by (simp add: cart_total_post_save_receiver_def)
qed

theorem cart_saved_recomputes_witness:
  "((filter (\<lambda>r. cart r = cart_id (cart_digital\<lparr>cart_total := Dec 20000\<rparr>))
        (orders \<lparr>carts = [cart_digital\<lparr>cart_total := Dec 20000\<rparr>], orders = [order_digital]\<rparr>)
       = [order_digital]
     \<and> pk order_digital \<noteq> None
     \<and> find (\<lambda>x. cart_id x = cart_id (cart_digital\<lparr>cart_total := Dec 20000\<rparr>))
          (carts \<lparr>carts = [cart_digital\<lparr>cart_total := Dec 20000\<rparr>], orders = [order_digital]\<rparr>)
        = Some (cart_digital\<lparr>cart_total := Dec 20000\<rparr>))
    \<and> (\<exists>self' d'. cart_total_post_save_receiver example_gen
                      \<lparr>carts = [cart_digital\<lparr>cart_total := Dec 20000\<rparr>], orders = [order_digital]\<rparr>
                      (cart_digital\<lparr>cart_total := Dec 20000\<rparr>) False = Inr d'
           \<and> to_row self' \<in> set (orders d') \<and> pk self' = Some 1
           \<and> total (to_row self')
               = Num (Dec (format_2f (fsum [to_float (Dec 20000), to_float (Dec 5000)]))))
    \<and> (length (filter (\<lambda>r. cart r = cart_id \<lparr>cart_id = 3, cart_total = Dec 20000, is_digital = True\<rparr>)
                  (orders example_db)) \<noteq> 1
       \<and> cart_total_post_save_receiver example_gen example_db
             \<lparr>cart_id = 3, cart_total = Dec 20000, is_digital = True\<rparr> False = Inr example_db))
   \<and> format_2f (fsum [to_float (Dec 20000), to_float (Dec 5000)]) = 25000"
proof (rule conjI)
  show "(filter (\<lambda>r. cart r = cart_id (cart_digital\<lparr>cart_total := Dec 20000\<rparr>))
        (orders \<lparr>carts = [cart_digital\<lparr>cart_total := Dec 20000\<rparr>], orders = [order_digital]\<rparr>)
       = [order_digital]
     \<and> pk order_digital \<noteq> None
     \<and> find (\<lambda>x. cart_id x = cart_id (cart_digital\<lparr>cart_total := Dec 20000\<rparr>))
          (carts \<lparr>carts = [cart_digital\<lparr>cart_total := Dec 20000\<rparr>], orders = [order_digital]\<rparr>)
        = Some (cart_digital\<lparr>cart_total := Dec 20000\<rparr>))
    \<and> (\<exists>self' d'. cart_total_post_save_receiver example_gen
                      \<lparr>carts = [cart_digital\<lparr>cart_total := Dec 20000\<rparr>], orders = [order_digital]\<rparr>
                      (cart_digital\<lparr>cart_total := Dec 20000\<rparr>) False = Inr d'
           \<and> to_row self' \<in> set (orders d') \<and> pk self' = Some 1
           \<and> total (to_row self')
               = Num (Dec (format_2f (fsum [to_float (Dec 20000), to_float (Dec 5000)]))))
    \<and> (length (filter (\<lambda>r. cart r = cart_id \<lparr>cart_id = 3, cart_total = Dec 20000, is_digital = True\<rparr>)
                  (orders example_db)) \<noteq> 1
       \<and> cart_total_post_save_receiver example_gen example_db
             \<lparr>cart_id = 3, cart_total = Dec 20000, is_digital = True\<rparr> False = Inr example_db)"
    using cart_saved_recomputes[of "cart_digital\<lparr>cart_total := Dec 20000\<rparr>"
        "\<lparr>carts = [cart_digital\<lparr>cart_total := Dec 20000\<rparr>], orders = [order_digital]\<rparr>"
        order_digital example_gen]
      cart_saved_recomputes[of "\<lparr>cart_id = 3, cart_total = Dec 20000, is_digital = True\<rparr>"
        example_db order_digital example_gen]
    by (simp add: example_defs)
      (elim conjE exE, intro exI conjI, assumption+)
  show "format_2f (fsum [to_float (Dec 20000), to_float (Dec 5000)]) = 25000"
    by code_simp
qed

end
